theory Spec2Isabelle
  imports Complex_Main "HOL-Library.AList"
begin

section \<open>EV fleet dashboard: page controllers\<close>

text \<open>
  The controllers are JavaScript. Numbers are modelled as exact reals (no rounding, no
  \<open>NaN\<close>), a JavaScript string as the \<open>string\<close> of the bytes of its UTF-8 encoding,
  \<open>null\<close>/\<open>undefined\<close> as \<open>None\<close>, and every \<open>throw\<close> as a branch of the model. Each
  page is a record of the module variables and of the parts of the document its
  controller writes; an \<open>async\<close> function takes what its request delivers as an argument.
\<close>

subsection \<open>Browser primitives shared by the controllers\<close>

text \<open>
  \<open>localStorage\<close> maps string keys to string values; \<open>getItem\<close> of a missing key is
  \<open>null\<close>. A value read back is tested for truthiness: \<open>null\<close> and the empty
  string are falsy.
\<close>

type_synonym storage = "string \<rightharpoonup> string"

definition truthy :: "string option \<Rightarrow> bool" where
  "truthy v = (case v of None \<Rightarrow> False | Some t \<Rightarrow> t \<noteq> [])"

definition or_else :: "string option \<Rightarrow> string \<Rightarrow> string" where
  \<comment> \<open>\<open>a || b\<close> on an optional string\<close>
  "or_else v d = (case v of None \<Rightarrow> d | Some t \<Rightarrow> if t = [] then d else t)"

text \<open>
  \<open>String.prototype.trim\<close> removes white space and line terminators from both ends:
  the six ASCII ones and, in UTF-8, U+00A0, U+1680, U+2000 to U+200A, U+2028, U+2029,
  U+202F, U+205F, U+3000 and U+FEFF. \<open>strip_start n\<close> removes up to \<open>n\<close> of them from
  the front; the length of the text is always enough.
\<close>

definition white_space :: "string list" where
  "white_space =
     [[CHR 0x09], [CHR 0x0A], [CHR 0x0B], [CHR 0x0C], [CHR 0x0D], [CHR 0x20],
      [CHR 0xC2, CHR 0xA0], [CHR 0xE1, CHR 0x9A, CHR 0x80],
      [CHR 0xE2, CHR 0x80, CHR 0x80], [CHR 0xE2, CHR 0x80, CHR 0x81],
      [CHR 0xE2, CHR 0x80, CHR 0x82], [CHR 0xE2, CHR 0x80, CHR 0x83],
      [CHR 0xE2, CHR 0x80, CHR 0x84], [CHR 0xE2, CHR 0x80, CHR 0x85],
      [CHR 0xE2, CHR 0x80, CHR 0x86], [CHR 0xE2, CHR 0x80, CHR 0x87],
      [CHR 0xE2, CHR 0x80, CHR 0x88], [CHR 0xE2, CHR 0x80, CHR 0x89],
      [CHR 0xE2, CHR 0x80, CHR 0x8A], [CHR 0xE2, CHR 0x80, CHR 0xA8],
      [CHR 0xE2, CHR 0x80, CHR 0xA9], [CHR 0xE2, CHR 0x80, CHR 0xAF],
      [CHR 0xE2, CHR 0x81, CHR 0x9F], [CHR 0xE3, CHR 0x80, CHR 0x80],
      [CHR 0xEF, CHR 0xBB, CHR 0xBF]]"

fun strip_start :: "nat \<Rightarrow> string list \<Rightarrow> string \<Rightarrow> string" where
  "strip_start 0 ws t = t"
| "strip_start (Suc n) ws t =
     (case find (\<lambda>w. take (length w) t = w) ws of
        None \<Rightarrow> t
      | Some w \<Rightarrow> strip_start n ws (drop (length w) t))"

definition trim :: "string \<Rightarrow> string" where
  "trim t =
     (let s = strip_start (length t) white_space t
      in rev (strip_start (length s) (map rev white_space) (rev s)))"

record state_box =
  textContent :: string
  className :: string
  display :: string

text \<open>
  What \<open>fetch\<close> followed by \<open>res.json()\<close> can deliver: a rejected promise, or a
  response with its \<open>ok\<close> flag and a body (\<open>None\<close> when the body is no JSON object, so
  that reading it throws).
\<close>

datatype 'a fetched = Rejected string | Response bool "'a option"

subsection \<open>login.js\<close>

record login_user =
  lu_name :: "string option"
  lu_role :: "string option"
  lu_email :: "string option"

record login_data =
  ld_success :: bool
  ld_token :: "string option"
  ld_error :: "string option"
  ld_user :: "login_user option"

record login_page =
  lp_storage :: storage
  loginMessage :: state_box
  button_disabled :: bool
  button_text :: string
  lp_location :: string
  lp_timeouts :: "(nat \<times> string) list"
  lp_requests :: "(string \<times> string) list"

definition undefined_text :: "string option \<Rightarrow> string" where
  \<comment> \<open>a value interpolated into a template literal\<close>
  "undefined_text v = (case v of None \<Rightarrow> ''undefined'' | Some t \<Rightarrow> t)"

definition hex_digit :: "nat \<Rightarrow> char" where
  "hex_digit n = (if n < 10 then char_of (48 + n) else char_of (87 + n))"

definition json_escape :: "char \<Rightarrow> string" where
  \<comment> \<open>one character inside a JSON string literal, as \<open>JSON.stringify\<close> writes it\<close>
  "json_escape c =
     (if c = CHR 0x22 then [CHR 0x5C, CHR 0x22]
      else if c = CHR 0x5C then [CHR 0x5C, CHR 0x5C]
      else if c = CHR 0x08 then [CHR 0x5C, CHR ''b'']
      else if c = CHR 0x09 then [CHR 0x5C, CHR ''t'']
      else if c = CHR 0x0A then [CHR 0x5C, CHR ''n'']
      else if c = CHR 0x0C then [CHR 0x5C, CHR ''f'']
      else if c = CHR 0x0D then [CHR 0x5C, CHR ''r'']
      else if (of_char c :: nat) < 32
        then [CHR 0x5C, CHR ''u'', CHR ''0'', CHR ''0'',
              hex_digit ((of_char c :: nat) div 16), hex_digit ((of_char c :: nat) mod 16)]
      else [c])"

definition json_string :: "string \<Rightarrow> string" where
  "json_string t = [CHR 0x22] @ concat (map json_escape t) @ [CHR 0x22]"

definition stringify_user :: "string option \<Rightarrow> string option \<Rightarrow> string \<Rightarrow> string" where
  \<comment> \<open>\<open>JSON.stringify\<close> of the three fields; an undefined field is left out\<close>
  "stringify_user n r e =
     ''{'' @ (case n of None \<Rightarrow> [] | Some t \<Rightarrow> json_string ''name'' @ '':'' @ json_string t @ '','')
          @ (case r of None \<Rightarrow> [] | Some t \<Rightarrow> json_string ''role'' @ '':'' @ json_string t @ '','')
          @ json_string ''email'' @ '':'' @ json_string e @ ''}''"

definition showMessage :: "string \<Rightarrow> string \<Rightarrow> login_page \<Rightarrow> login_page" where
  "showMessage msg type p =
     p\<lparr>loginMessage := \<lparr>textContent = msg, className = ''state-box '' @ type,
                         display = ''block''\<rparr>\<rparr>"

definition clearMessage :: "login_page \<Rightarrow> login_page" where
  "clearMessage p =
     p\<lparr>loginMessage := \<lparr>textContent = [], className = ''state-box hidden'',
                         display = ''none''\<rparr>\<rparr>"

definition login_failed :: "string \<Rightarrow> login_page \<Rightarrow> login_page" where
  \<comment> \<open>the three lines shared by the failure branch and the \<open>catch\<close> block\<close>
  "login_failed msg p =
     (showMessage msg ''error'' p)\<lparr>button_disabled := False, button_text := ''Login''\<rparr>"

definition loginUser :: "string \<Rightarrow> string \<Rightarrow> login_data fetched \<Rightarrow> login_page \<Rightarrow> login_page" where
  "loginUser email_field password_field outcome p0 =
     (let p = clearMessage p0;
          email = trim email_field;
          password = trim password_field
      in if email = [] \<or> password = []
         then showMessage ''Please enter both email and password.'' ''error'' p
         else
           let p = p\<lparr>button_disabled := True, button_text := ''Logging in...'',
                     lp_requests := lp_requests p @ [(email, password)]\<rparr>
           in case outcome of
                Rejected _ \<Rightarrow> login_failed ''Server error. Please try again later.'' p
              | Response ok None \<Rightarrow> login_failed ''Server error. Please try again later.'' p
              | Response ok (Some d) \<Rightarrow>
                  if \<not> ok \<or> \<not> ld_success d \<or> \<not> truthy (ld_token d)
                  then login_failed
                         (or_else (ld_error d) ''Login failed. Check your credentials.'') p
                  else
                    \<comment> \<open>the token is there: it has just been tested\<close>
                    let p = p\<lparr>lp_storage := (lp_storage p)(''evfleet_token'' \<mapsto> the (ld_token d))\<rparr>
                    in case ld_user d of
                         None \<Rightarrow> login_failed ''Server error. Please try again later.'' p
                       | Some u \<Rightarrow>
                           let p = p\<lparr>lp_storage := (lp_storage p)(''evfleet_user'' \<mapsto>
                                      stringify_user (lu_name u) (lu_role u)
                                        (or_else (lu_email u) email))\<rparr>;
                               p = showMessage
                                     (''Welcome '' @ undefined_text (lu_name u) @ ''! Redirecting...'')
                                     ''success'' p
                           in p\<lparr>lp_timeouts := lp_timeouts p @ [(500, ''/index.html'')]\<rparr>)"

definition run_timeouts :: "login_page \<Rightarrow> login_page" where
  \<comment> \<open>the pending \<open>setTimeout\<close> callbacks fire, in order; each assigns \<open>location.href\<close>\<close>
  "run_timeouts p =
     (foldl (\<lambda>q (delay, href). q\<lparr>lp_location := href\<rparr>) p (lp_timeouts p))\<lparr>lp_timeouts := []\<rparr>"

definition login_page_init :: "storage \<Rightarrow> login_page" where
  \<comment> \<open>the login page once its \<open>DOMContentLoaded\<close> handler has run: with a stored
     \<open>evfleet_token\<close> it has already assigned the dashboard to \<open>location.href\<close>\<close>
  "login_page_init st =
     \<lparr>lp_storage = st,
      loginMessage = \<lparr>textContent = [], className = ''state-box hidden'', display = ''none''\<rparr>,
      button_disabled = False, button_text = ''Login'',
      lp_location = (if truthy (st ''evfleet_token'') then ''/index.html'' else ''/login.html''),
      lp_timeouts = [], lp_requests = []\<rparr>"

text \<open>
  The login flow treats an outcome as a success when the response is \<open>ok\<close>, its body has a
  true \<open>success\<close> flag and a non-empty \<open>token\<close> (line 41 of login.js, negated).
\<close>

definition login_accepted :: "login_data fetched \<Rightarrow> bool" where
  "login_accepted outcome =
     (case outcome of
        Rejected _ \<Rightarrow> False
      | Response ok None \<Rightarrow> False
      | Response ok (Some d) \<Rightarrow> ok \<and> ld_success d \<and> truthy (ld_token d))"

subsection \<open>authGuard.js\<close>

record auth_user =
  au_name :: "string option"
  au_email :: "string option"
  au_role :: "string option"

record guard_page =
  gp_storage :: storage
  gp_location :: string
  currentUser :: "auth_user option"
  gp_requests :: "string list"

definition LOGIN_PAGE :: string where
  "LOGIN_PAGE = ''login.html''"

text \<open>
  \<open>getCurrentUser\<close> returns the user (or \<open>null\<close>) and records the
  \<open>Authorization\<close> header of the request it sends, if it sends one.
\<close>

definition getCurrentUser :: "auth_user fetched \<Rightarrow> guard_page \<Rightarrow> auth_user option \<times> guard_page" where
  "getCurrentUser outcome g =
     (let token = gp_storage g ''token''
      in if \<not> truthy token then (None, g)
         else
           \<comment> \<open>the token is there: it has just been tested\<close>
           let g = g\<lparr>gp_requests := gp_requests g @ [''Bearer '' @ the token]\<rparr>
           in case outcome of
                Rejected _ \<Rightarrow> (None, g)
              | Response ok body \<Rightarrow> if \<not> ok then (None, g) else (body, g))"

definition requireAuth :: "auth_user fetched \<Rightarrow> guard_page \<Rightarrow> guard_page" where
  "requireAuth outcome g0 =
     (case getCurrentUser outcome g0 of
        (None, g) \<Rightarrow> g\<lparr>gp_storage := (gp_storage g)(''token'' := None), gp_location := LOGIN_PAGE\<rparr>
      | (Some user, g) \<Rightarrow> g\<lparr>currentUser := Some user\<rparr>)"

definition guard_page_init :: "storage \<Rightarrow> string \<Rightarrow> guard_page" where
  "guard_page_init st href =
     \<lparr>gp_storage = st, gp_location = href, currentUser = None, gp_requests = []\<rparr>"

subsection \<open>logs.js: status helpers\<close>

record status_issues =
  status :: string
  issues :: nat

definition getStatusAndIssues :: "real \<Rightarrow> status_issues" where
  "getStatusAndIssues sohPercent =
     (if sohPercent \<ge> 90 then \<lparr>status = ''Good'', issues = 0\<rparr>
      else if sohPercent \<ge> 60 then \<lparr>status = ''Proper'', issues = 0\<rparr>
      else if sohPercent \<ge> 50 then \<lparr>status = ''Attention'', issues = 1\<rparr>
      else \<lparr>status = ''Critical'', issues = 1\<rparr>)"

subsection \<open>logs.js: loading logs\<close>














subsection \<open>prediction.js\<close>












subsection \<open>route.js: data\<close>

text \<open>
  The objects \<open>busMarkers\<close>, \<open>animationState\<close> and \<open>stationMarkers\<close> are
  dictionaries keyed by strings; they are association lists in insertion order. (The
  one loop over \<open>Object.keys\<close> deletes entries and does not depend on the order of
  enumeration.) Leaflet markers and the \<open>{lat, lng}\<close> cursor
  objects are mutable and shared with the animation closures, so they live in two stores
  indexed by address and the dictionaries hold addresses.
\<close>

type_synonym latlng = "real \<times> real"

record station =
  st_name :: string
  st_lat :: real
  st_lng :: real
  st_available :: bool

record bus =
  bus_id :: string
  lat :: "real option"
  lng :: "real option"
  prev_lat :: "real option"
  prev_lng :: "real option"
  soc :: "real option"
  bus_status :: string
  route_id :: string
  charging_station :: "station option"

record icon =
  ic_color :: string
  ic_opacity_full :: bool
  ic_label :: string

record popup =
  pp_bus_id :: string
  pp_route_id :: string
  pp_soc :: "real option"
  pp_status :: string

record bus_marker =
  bm_latlng :: latlng
  bm_icon :: icon
  bm_popup :: popup

record circle =
  c_latlng :: latlng
  c_radius :: nat
  c_color :: string
  c_name :: string
  c_available :: bool

record polyline =
  pl_points :: "latlng list"
  pl_color :: string
  pl_weight :: nat

text \<open>
  What the controller takes from the platform: the two case-folding methods of strings
  (they fold all of Unicode), the sequence \<open>Math.random\<close> will return, and the property
  names a Leaflet circle marker answers with a truthy value.
\<close>

record platform =
  toLowerCase :: "string \<Rightarrow> string"
  toUpperCase :: "string \<Rightarrow> string"
  Math_random :: "nat \<Rightarrow> real"
  circle_key :: "string \<Rightarrow> bool"

text \<open>The closure \<open>step\<close> of one \<open>animateBus\<close> call: its counter, its two increments
  and the cursor and marker objects it captured.\<close>

record stepper =
  s_i :: nat
  s_dLat :: real
  s_dLng :: real
  s_state :: nat
  s_marker :: nat

record route_view =
  selectedBusId :: string
  isFetching :: bool
  countdown :: int
  mapSearch :: "string option"
  routeState_text :: string
  routeState_display :: string
  syncTimer_text :: int
  routeTable :: "bus list"
  busMarkers :: "(string \<times> nat) list"
  animationState :: "(string \<times> nat) list"
  stationMarkers :: "(string \<times> circle) list"
  stationMarkers_proto :: "circle option"
  prototype_polluted :: bool
  marker_store :: "nat \<Rightarrow> bus_marker"
  cursor_store :: "nat \<Rightarrow> latlng"
  next_marker :: nat
  next_cursor :: nat
  movementLayer :: "polyline list"
  emergencyRouteLayer :: "polyline list"
  arrowLayer :: "latlng list"
  stationLayer :: "circle list"
  markerLayer :: "nat list"
  map_center :: latlng
  frame_queue :: "stepper list"
  platform :: platform
  random_drawn :: nat
  circles_created :: "string list"
  requests_sent :: nat
  in_flight :: nat

text \<open>
  \<open>frame_queue\<close> holds the callbacks handed to \<open>requestAnimationFrame\<close> and not yet
  run. The last three fields are history variables the code does not have: the station
  names for which a circle marker was constructed so far, the number of requests sent to
  \<open>/api/route\<close>, and the number of those not yet settled.

  The three dictionaries are plain objects, so a lookup also finds what they inherit.
  \<open>stationMarkers_proto\<close> is the circle marker that an assignment to
  \<open>stationMarkers["__proto__"]\<close> has made the prototype of \<open>stationMarkers\<close>, if any.
  \<open>prototype_polluted\<close> records that \<open>animateBus\<close> has written \<open>lat\<close> and \<open>lng\<close>
  (both \<open>NaN\<close>) into \<open>Object.prototype\<close>, which it does for a bus named
  \<open>__proto__\<close>; from then on every object without a \<open>lat\<close> of its own reads
  \<open>NaN\<close>, which this model of numbers does not follow.
\<close>

text \<open>
  The own properties of \<open>Object.prototype\<close>; each is truthy. A property read on a plain
  object finds an own entry, or one of these, or nothing.
\<close>

definition prototype_keys :: "string list" where
  "prototype_keys =
     [''constructor'', ''__defineGetter__'', ''__defineSetter__'', ''hasOwnProperty'',
      ''__lookupGetter__'', ''__lookupSetter__'', ''isPrototypeOf'', ''propertyIsEnumerable'',
      ''toString'', ''valueOf'', ''__proto__'', ''toLocaleString'']"

datatype 'a property = Own 'a | Inherited | Absent

definition js_get :: "(string \<times> 'a) list \<Rightarrow> string \<Rightarrow> 'a property" where
  "js_get obj k =
     (case map_of obj k of
        Some x \<Rightarrow> Own x
      | None \<Rightarrow> if k \<in> set prototype_keys then Inherited else Absent)"

definition station_get :: "route_view \<Rightarrow> string \<Rightarrow> circle property" where
  \<comment> \<open>\<open>stationMarkers[name]\<close>\<close>
  "station_get v k =
     (case map_of (stationMarkers v) k of
        Some c \<Rightarrow> Own c
      | None \<Rightarrow>
          if k \<in> set prototype_keys
             \<or> (stationMarkers_proto v \<noteq> None \<and> circle_key (platform v) k)
          then Inherited else Absent)"

definition station_put :: "string \<Rightarrow> circle \<Rightarrow> route_view \<Rightarrow> route_view" where
  \<comment> \<open>\<open>stationMarkers[name] = marker\<close>: the name \<open>__proto__\<close> is a setter\<close>
  "station_put k marker v =
     (if k = ''__proto__'' then v\<lparr>stationMarkers_proto := Some marker\<rparr>
      else v\<lparr>stationMarkers := AList.update k marker (stationMarkers v)\<rparr>)"

text \<open>How a call ended: it returned, or it left by an exception. The state is the one at
  that moment.\<close>

datatype completion = Normal | Threw

definition REFRESH_INTERVAL :: int where
  "REFRESH_INTERVAL = 10"

definition steps :: nat where
  "steps = 40"

subsection \<open>route.js: strings and colours\<close>

definition ascii_upper :: "string \<Rightarrow> string" where
  \<comment> \<open>\<open>toUpperCase\<close> on ASCII text\<close>
  "ascii_upper t =
     map (\<lambda>c. if 97 \<le> (of_char c :: nat) \<and> (of_char c :: nat) \<le> 122
              then char_of ((of_char c :: nat) - 32) else c) t"

definition ascii_lower :: "string \<Rightarrow> string" where
  \<comment> \<open>\<open>toLowerCase\<close> on ASCII text\<close>
  "ascii_lower t =
     map (\<lambda>c. if 65 \<le> (of_char c :: nat) \<and> (of_char c :: nat) \<le> 90
              then char_of ((of_char c :: nat) + 32) else c) t"

fun includes_str :: "string \<Rightarrow> string \<Rightarrow> bool" where
  "includes_str [] q = (q = [])"
| "includes_str (c # t) q = (take (length q) (c # t) = q \<or> includes_str t q)"

definition statusColor :: "platform \<Rightarrow> string \<Rightarrow> string" where
  "statusColor pf st =
     (let u = toUpperCase pf st
      in if u = ''GOOD'' then ''#16a34a''
         else if u = ''MEDIOCRE'' then ''#facc15''
         else if u = ''CRITICAL'' then ''#dc2626''
         else ''#64748b'')"

definition trafficColor :: "route_view \<Rightarrow> string \<times> route_view" where
  "trafficColor v =
     (let r = Math_random (platform v) (random_drawn v);
          v = v\<lparr>random_drawn := random_drawn v + 1\<rparr>
      in if r < 0.6 then (''#16a34a'', v)
         else if r < 0.85 then (''#facc15'', v)
         else (''#dc2626'', v))"

subsection \<open>route.js: bus animation\<close>

definition step :: "stepper \<Rightarrow> route_view \<Rightarrow> route_view" where
  "step sp v =
     (if s_i sp \<ge> steps then v
      else
        let pos = (fst (cursor_store v (s_state sp)) + s_dLat sp,
                   snd (cursor_store v (s_state sp)) + s_dLng sp);
            v = v\<lparr>cursor_store := (cursor_store v)(s_state sp := pos)\<rparr>;
            v = v\<lparr>marker_store := (marker_store v)
                      (s_marker sp := (marker_store v (s_marker sp))\<lparr>bm_latlng := pos\<rparr>)\<rparr>
        in v\<lparr>frame_queue := frame_queue v @ [sp\<lparr>s_i := s_i sp + 1\<rparr>]\<rparr>)"

text \<open>
  \<open>animateBus\<close> returns early without a marker or a cursor. With both it takes its first
  step at once. When the marker it read is an inherited built-in, \<open>marker.setLatLng\<close> is
  not a function and the step throws after it has advanced the cursor; when the cursor
  it read is an inherited built-in, the increments are \<open>NaN\<close> and Leaflet's
  \<open>setLatLng\<close> throws on them.
\<close>

definition animateBus :: "string \<Rightarrow> latlng \<Rightarrow> route_view \<Rightarrow> completion \<times> route_view" where
  "animateBus ident target v =
     (case (js_get (busMarkers v) ident, js_get (animationState v) ident) of
        (Absent, _) \<Rightarrow> (Normal, v)
      | (_, Absent) \<Rightarrow> (Normal, v)
      | (Own marker, Own state) \<Rightarrow>
          (Normal,
           step \<lparr>s_i = 0,
                 s_dLat = (fst target - fst (cursor_store v state)) / real steps,
                 s_dLng = (snd target - snd (cursor_store v state)) / real steps,
                 s_state = state, s_marker = marker\<rparr> v)
      | (Inherited, Own state) \<Rightarrow>
          (Threw,
           v\<lparr>cursor_store := (cursor_store v)(state :=
                (fst (cursor_store v state)
                   + (fst target - fst (cursor_store v state)) / real steps,
                 snd (cursor_store v state)
                   + (snd target - snd (cursor_store v state)) / real steps))\<rparr>)
      | (_, Inherited) \<Rightarrow>
          (Threw, if ident = ''__proto__'' then v\<lparr>prototype_polluted := True\<rparr> else v))"

definition run_frame :: "route_view \<Rightarrow> route_view" where
  \<comment> \<open>one display refresh: the callbacks registered before it run once each, in order;
     what they register runs at the next refresh\<close>
  "run_frame v = fold step (frame_queue v) (v\<lparr>frame_queue := []\<rparr>)"

subsection \<open>route.js: drawing\<close>

definition busPopup :: "bus \<Rightarrow> popup" where
  \<comment> \<open>the four values the popup text is built from\<close>
  "busPopup b = \<lparr>pp_bus_id = bus_id b, pp_route_id = route_id b, pp_soc = soc b,
                 pp_status = bus_status b\<rparr>"

text \<open>
  \<open>drawBus\<close> is only called by \<open>updateMap\<close> behind its null check on \<open>bus.lat\<close> and
  \<open>bus.lng\<close>, so it takes the two numbers. \<open>busPopup\<close> reads \<open>bus.soc.toFixed\<close>, which
  throws on a missing \<open>soc\<close>; \<open>fetchRouteStatus\<close> calls \<open>renderTable\<close> first, which
  reads the same field of every bus and throws there, so \<open>updateMap\<close> never meets one.
  An identifier that \<open>busMarkers\<close> only inherits is taken for a known bus: \<open>drawBus\<close>
  goes to \<open>animateBus\<close>, which throws.
\<close>

definition drawBus :: "bus \<Rightarrow> latlng \<Rightarrow> route_view \<Rightarrow> completion \<times> route_view" where
  "drawBus b pos v =
     (let color = statusColor (platform v) (bus_status b);
          isFocused = (bus_id b = selectedBusId v \<or> bus_status b = ''CRITICAL'');
          ic = \<lparr>ic_color = color, ic_opacity_full = isFocused, ic_label = bus_id b\<rparr>;
          r = (case js_get (busMarkers v) (bus_id b) of
                 Absent \<Rightarrow>
                   (Normal,
                    v\<lparr>marker_store := (marker_store v)(next_marker v :=
                          \<lparr>bm_latlng = pos, bm_icon = ic, bm_popup = busPopup b\<rparr>),
                      markerLayer := markerLayer v @ [next_marker v],
                      busMarkers := AList.update (bus_id b) (next_marker v) (busMarkers v),
                      next_marker := next_marker v + 1,
                      cursor_store := (cursor_store v)(next_cursor v := pos),
                      animationState := AList.update (bus_id b) (next_cursor v) (animationState v),
                      next_cursor := next_cursor v + 1\<rparr>)
               | _ \<Rightarrow>
                   (case animateBus (bus_id b) pos v of
                      (Threw, v') \<Rightarrow> (Threw, v')
                    | (Normal, v') \<Rightarrow>
                        (case js_get (busMarkers v') (bus_id b) of
                           Own m \<Rightarrow>
                             (Normal,
                              v'\<lparr>marker_store := (marker_store v')
                                 (m := (marker_store v' m)\<lparr>bm_icon := ic, bm_popup := busPopup b\<rparr>)\<rparr>)
                         | _ \<Rightarrow> \<comment> \<open>\<open>setIcon\<close> is not a function of a built-in\<close>
                             (Threw, v'))))
      in case r of
           (Threw, v') \<Rightarrow> (Threw, v')
         | (Normal, v') \<Rightarrow> (Normal, if isFocused then v'\<lparr>map_center := pos\<rparr> else v'))"

definition drawMovementTrail :: "bus \<Rightarrow> latlng \<Rightarrow> route_view \<Rightarrow> route_view" where
  "drawMovementTrail b pos v =
     (case (prev_lat b, prev_lng b) of
        (Some pla, Some pln) \<Rightarrow>
          \<comment> \<open>\<open>!bus.prev_lat\<close> also holds for the number 0\<close>
          if pla = 0 \<or> pln = 0 then v
          else v\<lparr>movementLayer := movementLayer v @
                 [\<lparr>pl_points = [(pla, pln), pos], pl_color = ''#94a3b8'', pl_weight = 2\<rparr>]\<rparr>
      | _ \<Rightarrow> v)"

definition drawArrow :: "latlng list \<Rightarrow> route_view \<Rightarrow> route_view" where
  \<comment> \<open>only called with the two-point route, whose middle index is 1\<close>
  "drawArrow points v = v\<lparr>arrowLayer := arrowLayer v @ [points ! (length points div 2)]\<rparr>"

definition drawOptimizedEmergencyRoute :: "bus \<Rightarrow> latlng \<Rightarrow> route_view \<Rightarrow> route_view" where
  "drawOptimizedEmergencyRoute b pos v =
     (case charging_station b of
        None \<Rightarrow> v
      | Some s \<Rightarrow>
          let route = [pos, (st_lat s, st_lng s)];
              (traffic, v) = trafficColor v;
              chargerColor = (if st_available s then ''#22c55e'' else ''#facc15'');
              marker = \<lparr>c_latlng = (st_lat s, st_lng s), c_radius = 8, c_color = chargerColor,
                        c_name = st_name s, c_available = st_available s\<rparr>;
              v = v\<lparr>circles_created := circles_created v @ [st_name s],
                     stationLayer := stationLayer v @ [marker]\<rparr>;
              v = station_put (st_name s) marker v;
              v = v\<lparr>emergencyRouteLayer := emergencyRouteLayer v @
                     [\<lparr>pl_points = route, pl_color = ''#e5e7eb'', pl_weight = 10\<rparr>]\<rparr>;
              v = v\<lparr>emergencyRouteLayer := emergencyRouteLayer v @
                     [\<lparr>pl_points = route, pl_color = traffic, pl_weight = 5\<rparr>]\<rparr>
          in drawArrow route v)"

definition drawStation :: "station \<Rightarrow> route_view \<Rightarrow> route_view" where
  "drawStation s v =
     (let color = (if st_available s then ''#22c55e'' else ''#facc15'')
      in case station_get v (st_name s) of
           Absent \<Rightarrow>
             let marker = \<lparr>c_latlng = (st_lat s, st_lng s), c_radius = 6, c_color = color,
                           c_name = st_name s, c_available = st_available s\<rparr>
             in station_put (st_name s) marker
                  (v\<lparr>circles_created := circles_created v @ [st_name s],
                     stationLayer := stationLayer v @ [marker]\<rparr>)
         | _ \<Rightarrow> v)"

subsection \<open>route.js: updateMap\<close>

definition visit_bus :: "bus \<Rightarrow> string set \<times> route_view \<Rightarrow> completion \<times> string set \<times> route_view" where
  \<comment> \<open>the body of \<open>buses.forEach\<close>, with the set \<open>activeIds\<close> it fills\<close>
  "visit_bus b acc =
     (case acc of (activeIds, v) \<Rightarrow>
        (case (lat b, lng b) of
           (Some la, Some lg) \<Rightarrow>
             (case drawBus b (la, lg) v of
                (Threw, v') \<Rightarrow> (Threw, insert (bus_id b) activeIds, v')
              | (Normal, v') \<Rightarrow>
                  let v' = drawMovementTrail b (la, lg) v'
                  in (Normal, insert (bus_id b) activeIds,
                      if bus_status b = ''CRITICAL'' \<and> charging_station b \<noteq> None
                      then drawOptimizedEmergencyRoute b (la, lg) v'
                      else (case charging_station b of
                              Some s \<Rightarrow> drawStation s v'
                            | None \<Rightarrow> v')))
         | _ \<Rightarrow> (Normal, activeIds, v)))"

fun visit_buses :: "bus list \<Rightarrow> string set \<times> route_view \<Rightarrow> completion \<times> string set \<times> route_view" where
  \<comment> \<open>\<open>buses.forEach\<close>: an exception ends the loop\<close>
  "visit_buses [] acc = (Normal, acc)"
| "visit_buses (b # bs) acc =
     (case visit_bus b acc of
        (Threw, acc') \<Rightarrow> (Threw, acc')
      | (Normal, acc') \<Rightarrow> visit_buses bs acc')"

definition remove_inactive :: "string set \<Rightarrow> string \<Rightarrow> route_view \<Rightarrow> route_view" where
  \<comment> \<open>the body of \<open>Object.keys(busMarkers).forEach\<close>\<close>
  "remove_inactive activeIds ident v =
     (if ident \<in> activeIds then v
      else v\<lparr>markerLayer := (case map_of (busMarkers v) ident of
                                 None \<Rightarrow> markerLayer v
                               | Some m \<Rightarrow> removeAll m (markerLayer v)),
             busMarkers := AList.delete ident (busMarkers v),
             animationState := AList.delete ident (animationState v)\<rparr>)"

definition updateMap :: "bus list \<Rightarrow> route_view \<Rightarrow> completion \<times> route_view" where
  "updateMap buses v0 =
     (let v = v0\<lparr>movementLayer := [], emergencyRouteLayer := [], arrowLayer := [],
                  stationLayer := []\<rparr>
      in case visit_buses buses ({}, v) of
           (Threw, activeIds, v') \<Rightarrow> (Threw, v')
         | (Normal, activeIds, v') \<Rightarrow>
             (Normal, fold (remove_inactive activeIds) (map fst (busMarkers v')) v'))"

subsection \<open>route.js: the poll\<close>

definition renderTable :: "bus list \<Rightarrow> route_view \<Rightarrow> bool \<times> route_view" where
  \<comment> \<open>rows are appended until a bus without \<open>soc\<close> makes \<open>toFixed\<close> throw; the flag
     says whether it threw\<close>
  "renderTable buses v =
     (None \<in> set (map soc buses),
      v\<lparr>routeTable := takeWhile (\<lambda>b. soc b \<noteq> None) buses\<rparr>)"

record route_data =
  rd_success :: bool
  rd_buses :: "bus list option"

definition search_matches :: "platform \<Rightarrow> string \<Rightarrow> bus \<Rightarrow> bool" where
  "search_matches pf q b =
     (includes_str (toLowerCase pf (bus_id b)) q
      \<or> includes_str
           (toLowerCase pf (case charging_station b of None \<Rightarrow> [] | Some s \<Rightarrow> st_name s)) q)"

definition search_query :: "route_view \<Rightarrow> string" where
  "search_query v = (case mapSearch v of None \<Rightarrow> [] | Some t \<Rightarrow> toLowerCase (platform v) t)"

definition telemetry_unavailable :: "route_view \<Rightarrow> route_view" where
  \<comment> \<open>the \<open>catch\<close> block\<close>
  "telemetry_unavailable v =
     v\<lparr>routeState_text := ''Live telemetry unavailable'', routeState_display := ''block''\<rparr>"

definition fetchRouteStatus_try :: "route_data fetched \<Rightarrow> route_view \<Rightarrow> route_view" where
  \<comment> \<open>the \<open>try\<close> block after the two \<open>await\<close>s, with its \<open>catch\<close>; the \<open>ok\<close> flag of
     the response is not read\<close>
  "fetchRouteStatus_try outcome v =
     (case outcome of
        Rejected _ \<Rightarrow> telemetry_unavailable v
      | Response ok None \<Rightarrow> telemetry_unavailable v
      | Response ok (Some d) \<Rightarrow>
          if \<not> rd_success d then telemetry_unavailable v
          else case rd_buses d of
                 None \<Rightarrow> telemetry_unavailable v
               | Some buses \<Rightarrow>
                   let filtered = filter (search_matches (platform v) (search_query v)) buses;
                       (threw, v) = renderTable filtered v
                   in if threw then telemetry_unavailable v
                      else case updateMap filtered v of
                             (Threw, v') \<Rightarrow> telemetry_unavailable v'
                           | (Normal, v') \<Rightarrow> v'\<lparr>routeState_display := ''none''\<rparr>)"

definition fetchRouteStatus_settle :: "route_data fetched \<Rightarrow> route_view \<Rightarrow> route_view" where
  \<comment> \<open>the continuation of the poll once the request has settled, with \<open>finally\<close>\<close>
  "fetchRouteStatus_settle outcome v =
     (fetchRouteStatus_try outcome v)
       \<lparr>isFetching := False, countdown := REFRESH_INTERVAL, in_flight := in_flight v - 1\<rparr>"

definition fetchRouteStatus :: "route_view \<Rightarrow> route_view" where
  \<comment> \<open>the call, up to the first \<open>await\<close>\<close>
  "fetchRouteStatus v =
     (if isFetching v then v
      else v\<lparr>isFetching := True, requests_sent := requests_sent v + 1,
             in_flight := in_flight v + 1\<rparr>)"

subsection \<open>route.js: lifecycle\<close>

datatype event =
    Tick
  | Search_input string
  | Settled "route_data fetched"
  | Frame

definition tick :: "route_view \<Rightarrow> route_view" where
  \<comment> \<open>the \<open>setInterval\<close> callback\<close>
  "tick v0 =
     (let v = v0\<lparr>countdown := countdown v0 - 1\<rparr>;
          v = v\<lparr>syncTimer_text := countdown v\<rparr>
      in if countdown v \<le> 0 then fetchRouteStatus v else v)"

fun route_step :: "route_view \<Rightarrow> event \<Rightarrow> route_view" where
  "route_step v Tick = tick v"
| "route_step v (Search_input t) = fetchRouteStatus (v\<lparr>mapSearch := Some t\<rparr>)"
| "route_step v (Settled outcome) =
     (if in_flight v = 0 then v else fetchRouteStatus_settle outcome v)"
| "route_step v Frame = run_frame v"

definition route_init :: "string \<Rightarrow> string option \<Rightarrow> platform \<Rightarrow> route_view" where
  \<comment> \<open>the module-level state after \<open>initMap\<close>, before the first poll\<close>
  "route_init selected search pf =
     \<lparr>selectedBusId = selected, isFetching = False, countdown = 10, mapSearch = search,
      routeState_text = [], routeState_display = [], syncTimer_text = 10, routeTable = [],
      busMarkers = [], animationState = [], stationMarkers = [],
      stationMarkers_proto = None, prototype_polluted = False,
      marker_store = (\<lambda>_. \<lparr>bm_latlng = (0, 0),
          bm_icon = \<lparr>ic_color = [], ic_opacity_full = False, ic_label = []\<rparr>,
          bm_popup = \<lparr>pp_bus_id = [], pp_route_id = [], pp_soc = None, pp_status = []\<rparr>\<rparr>),
      cursor_store = (\<lambda>_. (0, 0)), next_marker = 0, next_cursor = 0,
      movementLayer = [], emergencyRouteLayer = [], arrowLayer = [], stationLayer = [],
      markerLayer = [], map_center = (18.5204, 73.8567), frame_queue = [],
      platform = pf, random_drawn = 0, circles_created = [], requests_sent = 0,
      in_flight = 0\<rparr>"

definition page_load :: "string \<Rightarrow> string option \<Rightarrow> platform \<Rightarrow> route_view" where
  \<comment> \<open>the \<open>DOMContentLoaded\<close> handler: \<open>initMap\<close> and the first poll\<close>
  "page_load selected search pf = fetchRouteStatus (route_init selected search pf)"

definition run_events :: "event list \<Rightarrow> route_view \<Rightarrow> route_view" where
  "run_events es v = foldl route_step v es"

subsection \<open>route.js: notions used by the properties\<close>

text \<open>The rendered bus-marker state: both dictionaries, the marker layer and the two stores.\<close>

definition rendered_markers ::
  "route_view \<Rightarrow> (string \<times> nat) list \<times> (string \<times> nat) list \<times> nat list \<times> (nat \<Rightarrow> bus_marker) \<times> (nat \<Rightarrow> latlng)" where
  "rendered_markers v =
     (busMarkers v, animationState v, markerLayer v, marker_store v, cursor_store v)"

text \<open>The re-entrancy guard and the number of unsettled requests agree.\<close>

definition guard_inv :: "route_view \<Rightarrow> bool" where
  "guard_inv v = (in_flight v = (if isFetching v then 1 else 0))"

text \<open>The buses \<open>updateMap\<close> draws, and the agreement of the two dictionaries' keys.\<close>

definition located :: "bus \<Rightarrow> bool" where
  \<comment> \<open>the bus passes the null check at the head of the \<open>forEach\<close> body\<close>
  "located b = (lat b \<noteq> None \<and> lng b \<noteq> None)"

definition keys_agree :: "route_view \<Rightarrow> bool" where
  "keys_agree v = (fst ` set (animationState v) = fst ` set (busMarkers v))"

subsection \<open>route.js: measuring the animation\<close>

text \<open>
  A pending stepper with counter \<open>i\<close> still runs \<open>steps - i\<close> times; within \<open>n\<close>
  display refreshes it runs \<open>advance n\<close> times, and the pending steppers on cursor \<open>c\<close>
  together move it by \<open>gain d n c\<close> along the increment \<open>d\<close>.
\<close>

definition advance :: "nat \<Rightarrow> stepper \<Rightarrow> nat" where
  "advance n sp = min n (steps - s_i sp)"

fun gain :: "(stepper \<Rightarrow> real) \<Rightarrow> nat \<Rightarrow> nat \<Rightarrow> stepper list \<Rightarrow> real" where
  "gain d n c [] = 0"
| "gain d n c (sp # q) =
     (if s_state sp = c then real (advance n sp) * d sp else 0) + gain d n c q"

text \<open>The closure \<open>animateBus\<close> leaves in the queue after its first, synchronous step.\<close>

definition first_step :: "latlng \<Rightarrow> latlng \<Rightarrow> nat \<Rightarrow> nat \<Rightarrow> stepper" where
  "first_step target cur c m =
     \<lparr>s_i = 1, s_dLat = (fst target - fst cur) / real steps,
      s_dLng = (snd target - snd cur) / real steps, s_state = c, s_marker = m\<rparr>"

subsection \<open>logs.js: exporting telemetry\<close>




subsection \<open>signup.js\<close>







subsection \<open>maintenance.js\<close>

text \<open>
  Numbers of the API that are only printed are represented by the text JavaScript prints
  for them: a KPI of the response is \<open>Some t\<close> when it is a finite number that prints as
  \<open>t\<close>, and \<open>None\<close> when it is missing or \<open>Number.isFinite\<close> rejects it. A table row is
  kept as the four texts put into its cells and the class of the status cell.
  \<open>loadMaintenance\<close> only runs when the page has the elements that the
  \<open>DOMContentLoaded\<close> handler checks; \<open>maintenanceCount\<close> is not among them, so its text
  is \<open>None\<close> when the page has no such element, and assigning to it then throws.
  \<open>String.prototype.toLowerCase\<close> is a parameter, \<open>lc\<close>. \<open>maintenance_requests\<close> is a
  history variable, the number of requests sent so far.
\<close>

record maintenance_record =
  mr_bus_id :: "string option"
  mr_last_service :: "string option"
  mr_next_service :: "string option"
  mr_status :: "string option"

record maintenance_data =
  md_upcoming_services :: "string option"
  md_active_alerts :: "string option"
  md_avg_battery_health :: "string option"
  md_records :: "maintenance_record list option"

record maintenance_json =
  mj_success :: bool
  mj_error :: "string option"
  mj_data :: "maintenance_data option"

record maintenance_row =
  row_cells :: "string list"
  row_status_class :: string

record maintenance_page =
  upcomingServices_text :: string
  activeAlerts_text :: string
  avgBatteryHealth_text :: string
  maintenanceTable_rows :: "maintenance_row list"
  maintenanceState :: state_box
  maintenanceCount_text :: "string option"
  maintenance_requests :: nat

definition em_dash :: string where
  \<comment> \<open>U+2014 in UTF-8\<close>
  "em_dash = [CHR 0xE2, CHR 0x80, CHR 0x94]"

definition or_dash :: "string option \<Rightarrow> string" where
  \<comment> \<open>\<open>v ?? "-"\<close>, with the dash U+2014\<close>
  "or_dash v = (case v of None \<Rightarrow> em_dash | Some t \<Rightarrow> t)"

fun decimal :: "nat \<Rightarrow> string" where
  "decimal n = (if n < 10 then [char_of (48 + n)]
                else decimal (n div 10) @ [char_of (48 + n mod 10)])"

declare decimal.simps [simp del]

definition maintenance_showState :: "string \<Rightarrow> bool \<Rightarrow> maintenance_page \<Rightarrow> maintenance_page" where
  "maintenance_showState message isError p =
     p\<lparr>maintenanceState :=
         \<lparr>textContent = message,
          className = ''state-box '' @ (if isError then ''error'' else ''loading''),
          display = ''block''\<rparr>\<rparr>"

definition maintenance_hideState :: "maintenance_page \<Rightarrow> maintenance_page" where
  "maintenance_hideState p =
     p\<lparr>maintenanceState := (maintenanceState p)\<lparr>className := ''state-box'', display := ''none''\<rparr>\<rparr>"

definition maintenance_statusClass :: "(string \<Rightarrow> string) \<Rightarrow> string option \<Rightarrow> string" where
  \<comment> \<open>\<open>statusClass\<close> of maintenance.js; a missing status is \<open>""\<close> or \<open>"null"\<close>\<close>
  "maintenance_statusClass lc st =
     (case st of
        None \<Rightarrow> ''status-green''
      | Some t \<Rightarrow> if lc t = ''critical'' then ''status-red''
                  else if lc t = ''warning'' then ''status-yellow''
                  else ''status-green'')"

definition createTableRow :: "(string \<Rightarrow> string) \<Rightarrow> maintenance_record \<Rightarrow> maintenance_row" where
  "createTableRow lc r =
     \<lparr>row_cells = [or_dash (mr_bus_id r), or_dash (mr_last_service r), or_dash (mr_next_service r),
                   (case mr_status r of None \<Rightarrow> ''Normal'' | Some t \<Rightarrow> t)],
      row_status_class = maintenance_statusClass lc (mr_status r)\<rparr>"

definition set_maintenanceCount :: "string \<Rightarrow> maintenance_page \<Rightarrow> maintenance_page option" where
  \<comment> \<open>\<open>maintenanceCountEl.textContent = t\<close>; \<open>None\<close>: there is no element and the
     assignment throws\<close>
  "set_maintenanceCount t p =
     (case maintenanceCount_text p of
        None \<Rightarrow> None
      | Some _ \<Rightarrow> Some (p\<lparr>maintenanceCount_text := Some t\<rparr>))"

definition maintenance_catch :: "maintenance_page \<Rightarrow> completion \<times> maintenance_page" where
  \<comment> \<open>the \<open>catch\<close> block\<close>
  "maintenance_catch p =
     (case set_maintenanceCount em_dash p of
        None \<Rightarrow> (Threw, p)
      | Some p' \<Rightarrow> (Normal, maintenance_showState ''Failed to load maintenance data'' True p'))"

definition loadMaintenance ::
  "(string \<Rightarrow> string) \<Rightarrow> maintenance_json fetched \<Rightarrow> maintenance_page \<Rightarrow> completion \<times> maintenance_page" where
  "loadMaintenance lc outcome p0 =
     (let p = maintenance_showState
                (''Fetching maintenance analytics'' @ [CHR 0xE2, CHR 0x80, CHR 0xA6]) False p0;
          p = p\<lparr>maintenance_requests := maintenance_requests p + 1\<rparr>
      in case outcome of
           Rejected _ \<Rightarrow> maintenance_catch p
         | Response ok None \<Rightarrow> maintenance_catch p
         | Response ok (Some json) \<Rightarrow>
             if \<not> ok \<or> \<not> mj_success json then maintenance_catch p
             else
               let data = (case mj_data json of
                             None \<Rightarrow> \<lparr>md_upcoming_services = None, md_active_alerts = None,
                                      md_avg_battery_health = None, md_records = None\<rparr>
                           | Some d \<Rightarrow> d);
                   p = p\<lparr>upcomingServices_text := or_dash (md_upcoming_services data),
                         activeAlerts_text := or_dash (md_active_alerts data),
                         avgBatteryHealth_text :=
                           (case md_avg_battery_health data of
                              None \<Rightarrow> em_dash @ ''%''
                            | Some t \<Rightarrow> t @ ''%''),
                         maintenanceTable_rows := []\<rparr>;
                   records = (case md_records data of None \<Rightarrow> [] | Some rs \<Rightarrow> rs)
               in if records = []
                  then (case set_maintenanceCount ''0 records'' p of
                          None \<Rightarrow> maintenance_catch p
                        | Some p' \<Rightarrow>
                            (Normal, maintenance_showState ''No maintenance records available'' False p'))
                  else
                    let p = p\<lparr>maintenanceTable_rows := map (createTableRow lc) records\<rparr>
                    in case set_maintenanceCount (decimal (length records) @ '' records'') p of
                         None \<Rightarrow> maintenance_catch p
                       | Some p' \<Rightarrow> (Normal, maintenance_hideState p'))"

subsection \<open>dashboard.js\<close>

text \<open>
  The elements that \<open>safeUpdateText\<close> looks up by id are a partial map from ids to their
  text: an id without an element is left alone. A metric of the response that is only
  printed is \<open>Some t\<close> when it is a truthy value that prints as \<open>t\<close>. The two charts are
  kept as the data they show; creating a chart and updating one leave the same data.
  \<open>String.prototype.toLowerCase\<close> is a parameter, \<open>lc\<close>. \<open>dashboard_requests\<close> is a
  history variable, the number of requests sent so far.
\<close>

record dashboard_alert =
  da_level :: "string option"
  da_issue :: "string option"
  da_bus_id :: "string option"

record status_counts =
  sc_active :: "real option"
  sc_idle :: "real option"
  sc_critical :: "real option"

record dashboard_metrics =
  dm_avg_soc :: "string option"
  dm_avg_soh :: "string option"
  dm_total_energy :: "string option"
  dm_fleet_readiness :: "string option"
  dm_co2_savings :: "string option"
  dm_alerts :: "dashboard_alert list option"
  dm_energy_history :: "(string \<times> real) list option"
  dm_status_counts :: "status_counts option"

record dashboard_json =
  dj_success :: bool
  dj_error :: "string option"
  dj_data :: "dashboard_metrics option"














subsection \<open>Remote-call failures\<close>

text \<open>
  What counts as a failed remote call: the request is rejected (a network error), the
  status is not ok, or the body carries a false success flag. \<open>success\<close> reads the flag of
  the body; for an endpoint whose body has none it is \<open>\<lambda>_. True\<close>.
\<close>

definition call_failed :: "('a \<Rightarrow> bool) \<Rightarrow> 'a fetched \<Rightarrow> bool" where
  "call_failed success outcome =
     (case outcome of
        Rejected _ \<Rightarrow> True
      | Response ok None \<Rightarrow> \<not> ok
      | Response ok (Some d) \<Rightarrow> \<not> ok \<or> \<not> success d)"

subsection \<open>Example inputs\<close>

definition jo_response :: "login_data fetched" where
  \<comment> \<open>\<open>{success:true, token:"abc", user:{name:"Jo"}}\<close> with status 200\<close>
  "jo_response =
     Response True (Some \<lparr>ld_success = True, ld_token = Some ''abc'', ld_error = None,
       ld_user = Some \<lparr>lu_name = Some ''Jo'', lu_role = None, lu_email = None\<rparr>\<rparr>)"

text \<open>A platform for the examples, whose texts are all ASCII. Its \<open>circle_key\<close> is never
  consulted: no example has a station named \<open>__proto__\<close>.\<close>

definition ascii_platform :: platform where
  "ascii_platform =
     \<lparr>toLowerCase = ascii_lower, toUpperCase = ascii_upper, Math_random = (\<lambda>_. 0),
      circle_key = (\<lambda>_. False)\<rparr>"

text \<open>A bus of a poll response, the response itself, and the view after page load and
  one poll that returned a single bus at the origin.\<close>

definition example_bus :: "string \<Rightarrow> real option \<Rightarrow> real option \<Rightarrow> string \<Rightarrow> station option \<Rightarrow> bus" where
  "example_bus ident la lg st cs =
     \<lparr>bus_id = ident, lat = la, lng = lg, prev_lat = None, prev_lng = None, soc = Some 80,
      bus_status = st, route_id = ''R1'', charging_station = cs\<rparr>"

definition batch :: "bus list \<Rightarrow> route_data fetched" where
  "batch bs = Response True (Some \<lparr>rd_success = True, rd_buses = Some bs\<rparr>)"

definition one_bus_view :: route_view where
  "one_bus_view =
     run_events [Settled (batch [example_bus ''B1'' (Some 0) (Some 0) ''GOOD'' None])]
       (page_load [] None ascii_platform)"

text \<open>Two polls in a row that report the same bus at the same new position, with no
  display refresh between them.\<close>

definition retargeted_events :: "event list" where
  "retargeted_events =
     [Search_input [], Settled (batch [example_bus ''B1'' (Some 40) (Some 0) ''GOOD'' None]),
      Search_input [], Settled (batch [example_bus ''B1'' (Some 40) (Some 0) ''GOOD'' None])]"

definition two_bus_batch :: "bus list" where
  "two_bus_batch = [example_bus ''B1'' (Some 3) (Some 4) ''GOOD'' None,
                    example_bus ''B2'' None (Some 4) ''GOOD'' None]"

text \<open>Two successful polls on a fresh page: one whose only bus has no latitude, one whose
  only bus does not match the text in the search box.\<close>

definition unlocated_view :: route_view where
  "unlocated_view =
     run_events [Settled (batch [example_bus ''B2'' None (Some 4) ''GOOD'' None])]
       (page_load [] None ascii_platform)"

definition filtered_view :: route_view where
  "filtered_view =
     run_events [Settled (batch [example_bus ''B1'' (Some 3) (Some 4) ''GOOD'' None])]
       (page_load [] (Some ''b7'') ascii_platform)"

text \<open>A poll response with two critical buses that name the same charging station.\<close>

definition depot :: station where
  "depot = \<lparr>st_name = ''Depot'', st_lat = 5, st_lng = 6, st_available = True\<rparr>"

definition critical_pair :: "bus list" where
  "critical_pair =
     [example_bus ''B1'' (Some 3) (Some 4) ''CRITICAL'' (Some depot),
      example_bus ''B2'' (Some 7) (Some 8) ''CRITICAL'' (Some depot)]"






section \<open>Theorems\<close>

text \<open>
  C8. The SoH classification maps 92 to "Good" with 0 issues, 55 to "Attention" with 1
  issue and 40 to "Critical" with 1 issue; in general it returns "Good"/0 from 90 up,
  "Proper"/0 from 60 up to (excluding) 90, "Attention"/1 from 50 up to (excluding) 60,
  and "Critical"/1 below 50.
\<close>

theorem getStatusAndIssues_classes:
  "getStatusAndIssues 92 = \<lparr>status = ''Good'', issues = 0\<rparr>
   \<and> getStatusAndIssues 55 = \<lparr>status = ''Attention'', issues = 1\<rparr>
   \<and> getStatusAndIssues 40 = \<lparr>status = ''Critical'', issues = 1\<rparr>
   \<and> (90 \<le> a \<longrightarrow> getStatusAndIssues a = \<lparr>status = ''Good'', issues = 0\<rparr>)
   \<and> (60 \<le> b \<and> b < 90 \<longrightarrow> getStatusAndIssues b = \<lparr>status = ''Proper'', issues = 0\<rparr>)
   \<and> (50 \<le> c \<and> c < 60 \<longrightarrow> getStatusAndIssues c = \<lparr>status = ''Attention'', issues = 1\<rparr>)
   \<and> (d < 50 \<longrightarrow> getStatusAndIssues d = \<lparr>status = ''Critical'', issues = 1\<rparr>)"
  by (simp add: getStatusAndIssues_def)

theorem getStatusAndIssues_classes_witness:
  "(90::real) \<le> 90 \<and> getStatusAndIssues 90 = \<lparr>status = ''Good'', issues = 0\<rparr>
   \<and> (60::real) \<le> 89 \<and> (89::real) < 90
   \<and> getStatusAndIssues 89 = \<lparr>status = ''Proper'', issues = 0\<rparr>
   \<and> (50::real) \<le> 50 \<and> (50::real) < 60
   \<and> getStatusAndIssues 50 = \<lparr>status = ''Attention'', issues = 1\<rparr>
   \<and> (49::real) < 50 \<and> getStatusAndIssues 49 = \<lparr>status = ''Critical'', issues = 1\<rparr>"
  using getStatusAndIssues_classes [of 90 89 50 49] by simp

text \<open>The texts typed into the example forms have nothing to trim but spaces.\<close>

lemma trim_examples:
  "trim ''jo@fleet.org'' = ''jo@fleet.org''"
  "trim '' secret '' = ''secret''"
  "trim ''secret'' = ''secret''"
  "trim ''R12'' = ''R12''"
  "trim ''B7'' = ''B7''"
  by code_simp+

text \<open>
  C9. When the login request (sent once both fields are non-empty after trimming) returns
  \<open>{success:true, token:"abc", user:{name:"Jo"}}\<close>, local storage holds "abc" under
  \<open>evfleet_token\<close> and a navigation to \<open>/index.html\<close> is scheduled, which sets the
  location when the timeout fires. On every other outcome (rejected request, unreadable
  body, non-ok status, false success flag, missing or empty token) local storage, the
  pending navigations and the location are what they were.
\<close>

theorem loginUser_token_and_navigation:
  "(trim email \<noteq> [] \<and> trim password \<noteq> [] \<longrightarrow>
      lp_storage (loginUser email password jo_response p) ''evfleet_token'' = Some ''abc''
      \<and> lp_timeouts (loginUser email password jo_response p)
          = lp_timeouts p @ [(500, ''/index.html'')]
      \<and> lp_location (run_timeouts (loginUser email password jo_response p)) = ''/index.html'')
   \<and> (\<not> login_accepted outcome \<longrightarrow>
      lp_storage (loginUser email password outcome p) = lp_storage p
      \<and> lp_timeouts (loginUser email password outcome p) = lp_timeouts p
      \<and> lp_location (loginUser email password outcome p) = lp_location p)"
  by (simp add: loginUser_def login_accepted_def jo_response_def Let_def truthy_def
        showMessage_def clearMessage_def login_failed_def run_timeouts_def
        split: fetched.splits option.splits)

theorem loginUser_token_and_navigation_witness:
  "trim ''jo@fleet.org'' \<noteq> [] \<and> trim '' secret '' \<noteq> []
   \<and> lp_storage (loginUser ''jo@fleet.org'' '' secret '' jo_response (login_page_init Map.empty))
        ''evfleet_token'' = Some ''abc''
   \<and> lp_location (run_timeouts
        (loginUser ''jo@fleet.org'' '' secret '' jo_response (login_page_init Map.empty)))
        = ''/index.html''
   \<and> \<not> login_accepted (Response False None)
   \<and> lp_storage (loginUser ''jo@fleet.org'' '' secret '' (Response False None)
        (login_page_init Map.empty)) = Map.empty
   \<and> lp_timeouts (loginUser ''jo@fleet.org'' '' secret '' (Response False None)
        (login_page_init Map.empty)) = []"
  using loginUser_token_and_navigation
          [of "''jo@fleet.org''" "'' secret ''" "login_page_init Map.empty" "Response False None"]
  by (simp add: trim_examples login_accepted_def login_page_init_def truthy_def)

text \<open>Helper facts: the keys the login flow writes, and the guard without a token.\<close>

lemma loginUser_other_keys:
  "k \<noteq> ''evfleet_token'' \<Longrightarrow> k \<noteq> ''evfleet_user'' \<Longrightarrow>
   lp_storage (loginUser email password outcome p) k = lp_storage p k"
  by (simp add: loginUser_def Let_def showMessage_def clearMessage_def login_failed_def
        split: fetched.splits option.splits)

lemma loginUser_accepted_token:
  "trim email \<noteq> [] \<Longrightarrow> trim password \<noteq> [] \<Longrightarrow> login_accepted (Response ok (Some d)) \<Longrightarrow>
   lp_storage (loginUser email password (Response ok (Some d)) p) ''evfleet_token'' = ld_token d"
  by (simp add: loginUser_def login_accepted_def Let_def truthy_def showMessage_def
        clearMessage_def login_failed_def split: option.splits)

lemma getCurrentUser_no_token:
  "gp_storage g ''token'' = None \<Longrightarrow> getCurrentUser reply g = (None, g)"
  by (simp add: getCurrentUser_def truthy_def)

lemma requireAuth_no_token:
  "gp_storage g ''token'' = None \<Longrightarrow>
   requireAuth reply g = g\<lparr>gp_storage := (gp_storage g)(''token'' := None), gp_location := LOGIN_PAGE\<rparr>"
  by (simp add: requireAuth_def getCurrentUser_no_token)

text \<open>
  C10. The route guard reads local-storage key \<open>token\<close>; the login flow writes
  \<open>evfleet_token\<close> and \<open>evfleet_user\<close> only. So on the storage left by a successful
  login that started from empty storage, \<open>getCurrentUser\<close> returns \<open>null\<close> and sends no
  request, and \<open>requireAuth\<close> replaces the location by the login page, although the
  token of the response is in storage.
\<close>

theorem requireAuth_after_login_redirects:
  "trim email \<noteq> [] \<and> trim password \<noteq> [] \<and> login_accepted (Response ok (Some d))
     \<and> ld_user d \<noteq> None \<longrightarrow>
   lp_storage (loginUser email password (Response ok (Some d)) (login_page_init Map.empty))
      ''evfleet_token'' = ld_token d
   \<and> getCurrentUser reply (guard_page_init
        (lp_storage (loginUser email password (Response ok (Some d)) (login_page_init Map.empty)))
        href)
      = (None, guard_page_init
        (lp_storage (loginUser email password (Response ok (Some d)) (login_page_init Map.empty)))
        href)
   \<and> gp_requests (requireAuth reply (guard_page_init
        (lp_storage (loginUser email password (Response ok (Some d)) (login_page_init Map.empty)))
        href)) = []
   \<and> gp_location (requireAuth reply (guard_page_init
        (lp_storage (loginUser email password (Response ok (Some d)) (login_page_init Map.empty)))
        href)) = LOGIN_PAGE"
proof (intro impI, elim conjE)
  assume h: "trim email \<noteq> []" "trim password \<noteq> []" "login_accepted (Response ok (Some d))"
  define st where "st = lp_storage (loginUser email password (Response ok (Some d)) (login_page_init Map.empty))"
  have tok: "st ''token'' = None"
    unfolding st_def by (simp add: loginUser_other_keys login_page_init_def)
  then have g: "gp_storage (guard_page_init st href) ''token'' = None"
    by (simp add: guard_page_init_def)
  have "st ''evfleet_token'' = ld_token d"
    unfolding st_def using h by (rule loginUser_accepted_token)
  moreover have "getCurrentUser reply (guard_page_init st href) = (None, guard_page_init st href)"
    using g by (rule getCurrentUser_no_token)
  moreover have "gp_requests (requireAuth reply (guard_page_init st href)) = []"
    by (simp add: requireAuth_no_token [OF g]) (simp add: guard_page_init_def)
  moreover have "gp_location (requireAuth reply (guard_page_init st href)) = LOGIN_PAGE"
    by (simp add: requireAuth_no_token [OF g])
  ultimately show "lp_storage (loginUser email password (Response ok (Some d)) (login_page_init Map.empty))
      ''evfleet_token'' = ld_token d
   \<and> getCurrentUser reply (guard_page_init
        (lp_storage (loginUser email password (Response ok (Some d)) (login_page_init Map.empty)))
        href)
      = (None, guard_page_init
        (lp_storage (loginUser email password (Response ok (Some d)) (login_page_init Map.empty)))
        href)
   \<and> gp_requests (requireAuth reply (guard_page_init
        (lp_storage (loginUser email password (Response ok (Some d)) (login_page_init Map.empty)))
        href)) = []
   \<and> gp_location (requireAuth reply (guard_page_init
        (lp_storage (loginUser email password (Response ok (Some d)) (login_page_init Map.empty)))
        href)) = LOGIN_PAGE"
    unfolding st_def by simp
qed

theorem requireAuth_after_login_redirects_witness:
  "trim ''jo@fleet.org'' \<noteq> [] \<and> trim ''secret'' \<noteq> [] \<and> login_accepted jo_response
   \<and> lp_storage (loginUser ''jo@fleet.org'' ''secret'' jo_response (login_page_init Map.empty))
        ''evfleet_token'' = Some ''abc''
   \<and> gp_location (requireAuth (Response True (Some \<lparr>au_name = Some ''Jo'', au_email = None,
          au_role = None\<rparr>))
        (guard_page_init
          (lp_storage (loginUser ''jo@fleet.org'' ''secret'' jo_response (login_page_init Map.empty)))
          ''/index.html'')) = ''login.html''"
  using requireAuth_after_login_redirects
          [of "''jo@fleet.org''" "''secret''" True
              "\<lparr>ld_success = True, ld_token = Some ''abc'', ld_error = None,
                ld_user = Some \<lparr>lu_name = Some ''Jo'', lu_role = None, lu_email = None\<rparr>\<rparr>"
              "Response True (Some \<lparr>au_name = Some ''Jo'', au_email = None, au_role = None\<rparr>)"
              "''/index.html''"]
  by (simp add: trim_examples login_accepted_def jo_response_def truthy_def LOGIN_PAGE_def)

lemma telemetry_unavailable_markers:
  "rendered_markers (telemetry_unavailable v) = rendered_markers v"
  by (simp add: telemetry_unavailable_def rendered_markers_def)

text \<open>
  C7. When the poll fails (the request is rejected, the body cannot be read, or the success
  flag is false) the indicator reads "Live telemetry unavailable" and is displayed, and
  the bus markers, the interpolation states, the marker layer and the marker and cursor
  objects are exactly what they were.
\<close>

theorem failed_poll_keeps_markers:
  "rendered_markers (fetchRouteStatus_settle (Rejected e) v) = rendered_markers v
   \<and> routeState_text (fetchRouteStatus_settle (Rejected e) v) = ''Live telemetry unavailable''
   \<and> routeState_display (fetchRouteStatus_settle (Rejected e) v) = ''block''
   \<and> rendered_markers (fetchRouteStatus_settle (Response ok None) v) = rendered_markers v
   \<and> routeState_text (fetchRouteStatus_settle (Response ok None) v) = ''Live telemetry unavailable''
   \<and> routeState_display (fetchRouteStatus_settle (Response ok None) v) = ''block''
   \<and> rendered_markers (fetchRouteStatus_settle (Response ok (Some (d\<lparr>rd_success := False\<rparr>))) v)
       = rendered_markers v
   \<and> routeState_text (fetchRouteStatus_settle (Response ok (Some (d\<lparr>rd_success := False\<rparr>))) v)
       = ''Live telemetry unavailable''
   \<and> routeState_display (fetchRouteStatus_settle (Response ok (Some (d\<lparr>rd_success := False\<rparr>))) v)
       = ''block''"
  by (simp add: fetchRouteStatus_settle_def fetchRouteStatus_try_def telemetry_unavailable_def
        rendered_markers_def)

lemma step_poll_fields:
  "isFetching (step sp v) = isFetching v \<and> in_flight (step sp v) = in_flight v
   \<and> requests_sent (step sp v) = requests_sent v"
  by (simp add: step_def Let_def)

lemma fold_step_poll_fields:
  "isFetching (fold step q v) = isFetching v \<and> in_flight (fold step q v) = in_flight v
   \<and> requests_sent (fold step q v) = requests_sent v"
  by (induction q arbitrary: v) (simp_all add: step_poll_fields)

lemma run_frame_poll_fields:
  "isFetching (run_frame v) = isFetching v \<and> in_flight (run_frame v) = in_flight v
   \<and> requests_sent (run_frame v) = requests_sent v"
  by (simp add: run_frame_def fold_step_poll_fields)

lemma fetchRouteStatus_guard_inv: "guard_inv v \<Longrightarrow> guard_inv (fetchRouteStatus v)"
  by (simp add: guard_inv_def fetchRouteStatus_def)

lemma route_step_guard_inv: "guard_inv v \<Longrightarrow> guard_inv (route_step v e)"
proof (cases e)
  case Tick
  assume "guard_inv v"
  then have "guard_inv (v\<lparr>countdown := countdown v - 1, syncTimer_text := countdown v - 1\<rparr>)"
    by (simp add: guard_inv_def)
  then show ?thesis using Tick
    by (simp add: tick_def Let_def fetchRouteStatus_guard_inv)
next
  case (Search_input t)
  assume "guard_inv v"
  then have "guard_inv (v\<lparr>mapSearch := Some t\<rparr>)" by (simp add: guard_inv_def)
  then show ?thesis using Search_input by (simp add: fetchRouteStatus_guard_inv)
next
  case (Settled outcome)
  assume "guard_inv v"
  then show ?thesis using Settled
    by (auto simp add: guard_inv_def fetchRouteStatus_settle_def split: if_splits)
next
  case Frame
  assume "guard_inv v"
  then show ?thesis using Frame by (simp add: guard_inv_def run_frame_poll_fields)
qed

lemma run_events_guard_inv: "guard_inv v \<Longrightarrow> guard_inv (run_events es v)"
  unfolding run_events_def
  by (induction es arbitrary: v) (simp_all add: route_step_guard_inv)

lemma page_load_guard_inv: "guard_inv (page_load sel q pf)"
  by (simp add: page_load_def route_init_def fetchRouteStatus_def guard_inv_def)

text \<open>
  C5. In every execution of the live view (any sequence of timer ticks, filter inputs,
  settled requests and display refreshes after page load) at most one poll is unsettled;
  while one is, a further call of \<open>fetchRouteStatus\<close> returns the state as it is, and a
  timer tick or a filter input sends no request and leaves exactly one poll unsettled.
\<close>

theorem one_poll_in_flight:
  "in_flight (run_events es (page_load sel q pf)) \<le> 1
   \<and> (in_flight (run_events es (page_load sel q pf)) = 1 \<longrightarrow>
        fetchRouteStatus (run_events es (page_load sel q pf)) = run_events es (page_load sel q pf)
        \<and> requests_sent (route_step (run_events es (page_load sel q pf)) Tick)
            = requests_sent (run_events es (page_load sel q pf))
        \<and> requests_sent (route_step (run_events es (page_load sel q pf)) (Search_input t))
            = requests_sent (run_events es (page_load sel q pf))
        \<and> in_flight (route_step (run_events es (page_load sel q pf)) Tick) = 1
        \<and> in_flight (route_step (run_events es (page_load sel q pf)) (Search_input t)) = 1)"
proof -
  define v where "v = run_events es (page_load sel q pf)"
  have inv: "guard_inv v"
    unfolding v_def by (rule run_events_guard_inv [OF page_load_guard_inv])
  have a: "in_flight v \<le> 1" using inv by (simp add: guard_inv_def)
  have b: "in_flight v = 1 \<Longrightarrow> isFetching v" using inv by (simp add: guard_inv_def split: if_splits)
  have c: "in_flight v = 1 \<Longrightarrow> fetchRouteStatus v = v"
    using b by (simp add: fetchRouteStatus_def)
  have d: "in_flight v = 1 \<Longrightarrow> requests_sent (route_step v Tick) = requests_sent v
             \<and> in_flight (route_step v Tick) = 1"
    using b by (simp add: tick_def Let_def fetchRouteStatus_def)
  have e: "in_flight v = 1 \<Longrightarrow> requests_sent (route_step v (Search_input t)) = requests_sent v
             \<and> in_flight (route_step v (Search_input t)) = 1"
    using b by (simp add: fetchRouteStatus_def)
  show ?thesis using a c d e unfolding v_def by simp
qed

theorem one_poll_in_flight_witness:
  "in_flight (run_events [Settled (Rejected ''offline''), Search_input ''b1''] (page_load [] None ascii_platform)) = 1
   \<and> requests_sent (run_events [Settled (Rejected ''offline''), Search_input ''b1''] (page_load [] None ascii_platform)) = 2
   \<and> requests_sent (route_step (run_events [Settled (Rejected ''offline''), Search_input ''b1'']
        (page_load [] None ascii_platform)) (Search_input ''b12'')) = 2"
  using one_poll_in_flight [of "[Settled (Rejected ''offline''), Search_input ''b1'']" "[]" None ascii_platform "''b12''"]
  by (simp add: run_events_def page_load_def route_init_def fetchRouteStatus_def
        fetchRouteStatus_settle_def fetchRouteStatus_try_def telemetry_unavailable_def)

lemma step_dicts:
  "busMarkers (step sp v) = busMarkers v \<and> animationState (step sp v) = animationState v"
  by (simp add: step_def Let_def)

lemma step_cursor:
  "cursor_store (step sp v) c =
     (if s_i sp < steps \<and> s_state sp = c
      then (fst (cursor_store v c) + s_dLat sp, snd (cursor_store v c) + s_dLng sp)
      else cursor_store v c)"
  by (simp add: step_def Let_def)

lemma step_queue:
  "frame_queue (step sp v) =
     frame_queue v @ (if s_i sp < steps then [sp\<lparr>s_i := s_i sp + 1\<rparr>] else [])"
  by (simp add: step_def Let_def)

lemma fold_step_dicts:
  "busMarkers (fold step q v) = busMarkers v \<and> animationState (fold step q v) = animationState v"
  by (induction q arbitrary: v) (simp_all add: step_dicts)

lemma fold_step_queue:
  "frame_queue (fold step q v) =
     frame_queue v @ map (\<lambda>sp. sp\<lparr>s_i := s_i sp + 1\<rparr>) (filter (\<lambda>sp. s_i sp < steps) q)"
  by (induction q arbitrary: v) (simp_all add: step_queue)

lemma fold_step_lat:
  "fst (cursor_store (fold step q v) c) =
     fst (cursor_store v c)
     + sum_list (map s_dLat (filter (\<lambda>sp. s_i sp < steps \<and> s_state sp = c) q))"
  by (induction q arbitrary: v) (simp_all add: step_cursor)

lemma fold_step_lng:
  "snd (cursor_store (fold step q v) c) =
     snd (cursor_store v c)
     + sum_list (map s_dLng (filter (\<lambda>sp. s_i sp < steps \<and> s_state sp = c) q))"
  by (induction q arbitrary: v) (simp_all add: step_cursor)

lemma run_frame_dicts:
  "busMarkers (run_frame v) = busMarkers v \<and> animationState (run_frame v) = animationState v"
  by (simp add: run_frame_def fold_step_dicts)

lemma run_frame_queue:
  "frame_queue (run_frame v) =
     map (\<lambda>sp. sp\<lparr>s_i := s_i sp + 1\<rparr>) (filter (\<lambda>sp. s_i sp < steps) (frame_queue v))"
  by (simp add: run_frame_def fold_step_queue)

lemma run_frame_lat:
  "fst (cursor_store (run_frame v) c) =
     fst (cursor_store v c)
     + sum_list (map s_dLat (filter (\<lambda>sp. s_i sp < steps \<and> s_state sp = c) (frame_queue v)))"
  by (simp add: run_frame_def fold_step_lat)

lemma run_frame_lng:
  "snd (cursor_store (run_frame v) c) =
     snd (cursor_store v c)
     + sum_list (map s_dLng (filter (\<lambda>sp. s_i sp < steps \<and> s_state sp = c) (frame_queue v)))"
  by (simp add: run_frame_def fold_step_lng)

lemma frames_dicts:
  "busMarkers ((run_frame ^^ n) v) = busMarkers v
   \<and> animationState ((run_frame ^^ n) v) = animationState v"
  by (induction n) (simp_all add: run_frame_dicts)

lemma frames_single_queue:
  "frame_queue v = [sp] \<Longrightarrow> s_i sp + n \<le> steps \<Longrightarrow>
   frame_queue ((run_frame ^^ n) v) = [sp\<lparr>s_i := s_i sp + n\<rparr>]"
  by (induction n) (simp_all add: run_frame_queue)

lemma advance_live:
  "s_i sp < steps \<Longrightarrow> advance (Suc n) sp = Suc (advance n (sp\<lparr>s_i := s_i sp + 1\<rparr>))"
  unfolding advance_def by (cases "n \<le> steps - Suc (s_i sp)") auto

lemma advance_dead: "\<not> s_i sp < steps \<Longrightarrow> advance n sp = 0"
  by (simp add: advance_def)

lemma gain_append: "gain d n c (q @ q') = gain d n c q + gain d n c q'"
  by (induction q) simp_all

lemma gain_others: "\<forall>sp \<in> set q. s_state sp \<noteq> c \<Longrightarrow> gain d n c q = 0"
  by (induction q) simp_all

lemma gain_0: "gain d 0 c q = 0"
  by (induction q) (simp_all add: advance_def)

lemma gain_Suc:
  assumes d: "\<And>sp k. d (sp\<lparr>s_i := k\<rparr>) = d sp"
  shows "sum_list (map d (filter (\<lambda>sp. s_i sp < steps \<and> s_state sp = c) q))
   + gain d n c (map (\<lambda>sp. sp\<lparr>s_i := s_i sp + 1\<rparr>) (filter (\<lambda>sp. s_i sp < steps) q))
   = gain d (Suc n) c q"
proof (induction q)
  case Nil
  show ?case by simp
next
  case (Cons sp q)
  show ?case
  proof (cases "s_i sp < steps")
    case True
    have "real (advance (Suc n) sp) = 1 + real (advance n (sp\<lparr>s_i := s_i sp + 1\<rparr>))"
      by (simp add: advance_live [OF True])
    then show ?thesis using Cons.IH True
      by (simp add: algebra_simps d)
  next
    case False
    then show ?thesis using Cons.IH by (simp add: advance_dead)
  qed
qed

lemma frames_lat:
  "fst (cursor_store ((run_frame ^^ n) v) c)
   = fst (cursor_store v c) + gain s_dLat n c (frame_queue v)"
proof (induction n arbitrary: v)
  case 0
  show ?case by (simp add: gain_0)
next
  case (Suc n)
  have "fst (cursor_store ((run_frame ^^ Suc n) v) c)
        = fst (cursor_store ((run_frame ^^ n) (run_frame v)) c)"
    by (simp add: funpow_swap1)
  also have "\<dots> = fst (cursor_store (run_frame v) c) + gain s_dLat n c (frame_queue (run_frame v))"
    by (rule Suc.IH)
  also have "\<dots> = fst (cursor_store v c) + gain s_dLat (Suc n) c (frame_queue v)"
    using gain_Suc [of s_dLat c "frame_queue v" n] by (simp add: run_frame_lat run_frame_queue)
  finally show ?case .
qed

lemma frames_lng:
  "snd (cursor_store ((run_frame ^^ n) v) c)
   = snd (cursor_store v c) + gain s_dLng n c (frame_queue v)"
proof (induction n arbitrary: v)
  case 0
  show ?case by (simp add: gain_0)
next
  case (Suc n)
  have "snd (cursor_store ((run_frame ^^ Suc n) v) c)
        = snd (cursor_store ((run_frame ^^ n) (run_frame v)) c)"
    by (simp add: funpow_swap1)
  also have "\<dots> = snd (cursor_store (run_frame v) c) + gain s_dLng n c (frame_queue (run_frame v))"
    by (rule Suc.IH)
  also have "\<dots> = snd (cursor_store v c) + gain s_dLng (Suc n) c (frame_queue v)"
    using gain_Suc [of s_dLng c "frame_queue v" n] by (simp add: run_frame_lng run_frame_queue)
  finally show ?case .
qed

text \<open>What the queue still holds after j frames contributes the rest of what it held.\<close>

lemma gain_after_frames_lat:
  "gain s_dLat n c (frame_queue ((run_frame ^^ j) v))
   = gain s_dLat (j + n) c (frame_queue v) - gain s_dLat j c (frame_queue v)"
proof -
  have "(run_frame ^^ (j + n)) v = (run_frame ^^ n) ((run_frame ^^ j) v)"
    by (simp add: funpow_add add.commute [of j n])
  then have a: "fst (cursor_store ((run_frame ^^ (j + n)) v) c)
             = fst (cursor_store ((run_frame ^^ j) v) c)
               + gain s_dLat n c (frame_queue ((run_frame ^^ j) v))"
    by (simp only: frames_lat [of n])
  have b: "fst (cursor_store ((run_frame ^^ (j + n)) v) c)
             = fst (cursor_store v c) + gain s_dLat (j + n) c (frame_queue v)"
    by (rule frames_lat)
  have c: "fst (cursor_store ((run_frame ^^ j) v) c)
             = fst (cursor_store v c) + gain s_dLat j c (frame_queue v)"
    by (rule frames_lat)
  show ?thesis using a b c by linarith
qed

lemma gain_after_frames_lng:
  "gain s_dLng n c (frame_queue ((run_frame ^^ j) v))
   = gain s_dLng (j + n) c (frame_queue v) - gain s_dLng j c (frame_queue v)"
proof -
  have "(run_frame ^^ (j + n)) v = (run_frame ^^ n) ((run_frame ^^ j) v)"
    by (simp add: funpow_add add.commute [of j n])
  then have a: "snd (cursor_store ((run_frame ^^ (j + n)) v) c)
             = snd (cursor_store ((run_frame ^^ j) v) c)
               + gain s_dLng n c (frame_queue ((run_frame ^^ j) v))"
    by (simp only: frames_lng [of n])
  have b: "snd (cursor_store ((run_frame ^^ (j + n)) v) c)
             = snd (cursor_store v c) + gain s_dLng (j + n) c (frame_queue v)"
    by (rule frames_lng)
  have c: "snd (cursor_store ((run_frame ^^ j) v) c)
             = snd (cursor_store v c) + gain s_dLng j c (frame_queue v)"
    by (rule frames_lng)
  show ?thesis using a b c by linarith
qed

lemma animateBus_known:
  assumes "map_of (busMarkers v) ident = Some m" "map_of (animationState v) ident = Some c"
  shows "frame_queue (snd (animateBus ident target v))
           = frame_queue v @ [first_step target (cursor_store v c) c m]"
    and "cursor_store (snd (animateBus ident target v)) c
           = (fst (cursor_store v c) + (fst target - fst (cursor_store v c)) / real steps,
              snd (cursor_store v c) + (snd target - snd (cursor_store v c)) / real steps)"
    and "busMarkers (snd (animateBus ident target v)) = busMarkers v"
    and "animationState (snd (animateBus ident target v)) = animationState v"
    and "bm_latlng (marker_store (snd (animateBus ident target v)) m)
           = cursor_store (snd (animateBus ident target v)) c"
    and "fst (animateBus ident target v) = Normal"
  using assms
  by (simp_all add: animateBus_def js_get_def step_def Let_def first_step_def steps_def)

lemma gain_first_step:
  "gain s_dLat n c [first_step target cur c m] = real (min n 39) * ((fst target - fst cur) / 40)"
  "gain s_dLng n c [first_step target cur c m] = real (min n 39) * ((snd target - snd cur) / 40)"
  by (simp_all add: first_step_def advance_def steps_def)

lemma step_marker_follows:
  "(s_state sp = c) = (s_marker sp = m) \<Longrightarrow>
   bm_latlng (marker_store v m) = cursor_store v c \<Longrightarrow>
   bm_latlng (marker_store (step sp v) m) = cursor_store (step sp v) c"
  by (auto simp add: step_def Let_def)

lemma fold_step_marker_follows:
  "\<forall>sp \<in> set q. (s_state sp = c) = (s_marker sp = m) \<Longrightarrow>
   bm_latlng (marker_store v m) = cursor_store v c \<Longrightarrow>
   bm_latlng (marker_store (fold step q v) m) = cursor_store (fold step q v) c"
  by (induction q arbitrary: v) (simp_all add: step_marker_follows)

lemma run_frame_marker_follows:
  "\<forall>sp \<in> set (frame_queue v). (s_state sp = c) = (s_marker sp = m) \<Longrightarrow>
   bm_latlng (marker_store v m) = cursor_store v c \<Longrightarrow>
   bm_latlng (marker_store (run_frame v) m) = cursor_store (run_frame v) c
   \<and> (\<forall>sp \<in> set (frame_queue (run_frame v)). (s_state sp = c) = (s_marker sp = m))"
  by (simp add: run_frame_def fold_step_marker_follows fold_step_queue)

lemma frames_marker_follows:
  "\<forall>sp \<in> set (frame_queue v). (s_state sp = c) = (s_marker sp = m) \<Longrightarrow>
   bm_latlng (marker_store v m) = cursor_store v c \<Longrightarrow>
   bm_latlng (marker_store ((run_frame ^^ n) v) m) = cursor_store ((run_frame ^^ n) v) c
   \<and> (\<forall>sp \<in> set (frame_queue ((run_frame ^^ n) v)). (s_state sp = c) = (s_marker sp = m))"
proof (induction n)
  case 0
  then show ?case by simp
next
  case (Suc n)
  then show ?case using run_frame_marker_follows [of "(run_frame ^^ n) v" c m] by simp
qed

lemma animateBus_frames_cursor:
  assumes m: "map_of (busMarkers v) ident = Some m"
      and c: "map_of (animationState v) ident = Some c"
      and q: "\<forall>sp \<in> set (frame_queue v). s_state sp \<noteq> c \<and> s_marker sp \<noteq> m"
  shows "cursor_store ((run_frame ^^ n) (snd (animateBus ident target v))) c
         = (fst (cursor_store v c) + real (Suc (min n 39)) * ((fst target - fst (cursor_store v c)) / 40),
            snd (cursor_store v c) + real (Suc (min n 39)) * ((snd target - snd (cursor_store v c)) / 40))"
    and "bm_latlng (marker_store ((run_frame ^^ n) (snd (animateBus ident target v))) m)
         = cursor_store ((run_frame ^^ n) (snd (animateBus ident target v))) c"
proof -
  let ?v1 = "snd (animateBus ident target v)"
  have g0: "gain d n c (frame_queue v) = 0" for d
    using q by (simp add: gain_others)
  have qla: "gain s_dLat n c (frame_queue ?v1)
             = real (min n 39) * ((fst target - fst (cursor_store v c)) / 40)"
    by (simp only: animateBus_known(1) [OF m c] gain_append g0 gain_first_step add_0)
  have qlg: "gain s_dLng n c (frame_queue ?v1)
             = real (min n 39) * ((snd target - snd (cursor_store v c)) / 40)"
    by (simp only: animateBus_known(1) [OF m c] gain_append g0 gain_first_step add_0)
  have c1: "cursor_store ?v1 c
            = (fst (cursor_store v c) + (fst target - fst (cursor_store v c)) / 40,
               snd (cursor_store v c) + (snd target - snd (cursor_store v c)) / 40)"
    by (simp add: animateBus_known(2) [OF m c] steps_def)
  have la: "fst (cursor_store ((run_frame ^^ n) ?v1) c)
            = fst (cursor_store v c) + real (Suc (min n 39)) * ((fst target - fst (cursor_store v c)) / 40)"
    unfolding frames_lat qla c1 by (simp add: distrib_right del: of_nat_min)
  have lg: "snd (cursor_store ((run_frame ^^ n) ?v1) c)
            = snd (cursor_store v c) + real (Suc (min n 39)) * ((snd target - snd (cursor_store v c)) / 40)"
    unfolding frames_lng qlg c1 by (simp add: distrib_right del: of_nat_min)
  show "cursor_store ((run_frame ^^ n) ?v1) c
         = (fst (cursor_store v c) + real (Suc (min n 39)) * ((fst target - fst (cursor_store v c)) / 40),
            snd (cursor_store v c) + real (Suc (min n 39)) * ((snd target - snd (cursor_store v c)) / 40))"
    using la lg by (simp add: prod_eq_iff)
  have "\<forall>sp \<in> set (frame_queue ?v1). (s_state sp = c) = (s_marker sp = m)"
    using q by (auto simp add: animateBus_known [OF m c] first_step_def)
  then show "bm_latlng (marker_store ((run_frame ^^ n) ?v1) m) = cursor_store ((run_frame ^^ n) ?v1) c"
    using frames_marker_follows [of ?v1 c m n] by (simp add: animateBus_known(5) [OF m c])
qed

lemma frames_queue:
  "\<forall>sp \<in> set (frame_queue v). s_i sp \<le> steps \<Longrightarrow>
   frame_queue ((run_frame ^^ n) v)
   = map (\<lambda>sp. sp\<lparr>s_i := s_i sp + n\<rparr>) (filter (\<lambda>sp. s_i sp + n \<le> steps) (frame_queue v))"
proof (induction n)
  case 0
  have "filter (\<lambda>sp. s_i sp \<le> steps) (frame_queue v) = frame_queue v"
    using 0 by (simp add: filter_id_conv)
  then show ?case by simp
next
  case (Suc n)
  have "frame_queue ((run_frame ^^ Suc n) v)
        = map (\<lambda>sp. sp\<lparr>s_i := s_i sp + 1\<rparr>)
            (filter (\<lambda>sp. s_i sp < steps)
               (map (\<lambda>sp. sp\<lparr>s_i := s_i sp + n\<rparr>)
                  (filter (\<lambda>sp. s_i sp + n \<le> steps) (frame_queue v))))"
    using Suc by (simp add: run_frame_queue)
  also have "\<dots> = map (\<lambda>sp. sp\<lparr>s_i := s_i sp + Suc n\<rparr>)
            (filter (\<lambda>sp. s_i sp + Suc n \<le> steps) (frame_queue v))"
  proof -
    have "filter (\<lambda>sp. s_i sp + n \<le> steps \<and> s_i sp + n < steps) (frame_queue v)
          = filter (\<lambda>sp. Suc (s_i sp + n) \<le> steps) (frame_queue v)"
      by (rule filter_cong) auto
    then show ?thesis by (simp add: filter_map o_def conj_commute)
  qed
  finally show ?case .
qed

lemmas poll_eval =
  run_events_def page_load_def route_init_def fetchRouteStatus_def fetchRouteStatus_settle_def
  fetchRouteStatus_try_def telemetry_unavailable_def search_query_def search_matches_def
  ascii_platform_def ascii_lower_def ascii_upper_def renderTable_def updateMap_def visit_bus_def
  drawBus_def js_get_def prototype_keys_def station_get_def station_put_def
  statusColor_def busPopup_def drawMovementTrail_def drawStation_def
  drawOptimizedEmergencyRoute_def drawArrow_def trafficColor_def remove_inactive_def
  example_bus_def batch_def Let_def

lemma one_bus_view_facts:
  "busMarkers one_bus_view = [(''B1'', 0)]"
  "animationState one_bus_view = [(''B1'', 0)]"
  "frame_queue one_bus_view = []"
  "cursor_store one_bus_view 0 = (0, 0)"
  "isFetching one_bus_view = False"
  by (simp_all add: one_bus_view_def poll_eval)

lemma run_events_frames: "run_events (replicate n Frame) v = (run_frame ^^ n) v"
  unfolding run_events_def
proof (induction n arbitrary: v)
  case 0
  show ?case by simp
next
  case (Suc n)
  show ?case by (simp add: Suc funpow_swap1)
qed

lemma run_events_append: "run_events (es @ es') v = run_events es' (run_events es v)"
  by (simp add: run_events_def)

text \<open>
  C3. For a vehicle with a marker and a cursor at A, and no other interpolation pending on
  them, \<open>animateBus\<close> towards B returns without an exception and advances the cursor by
  (B - A)/40 per step: after its first step and k further refreshes it is at
  A + (k + 1)(B - A)/40, and from the 40th step on (39 refreshes) cursor and marker are
  exactly at B, in exact arithmetic.
\<close>

theorem animateBus_reaches_target:
  assumes "map_of (busMarkers v) ident = Some m"
      and "map_of (animationState v) ident = Some c"
      and "\<forall>sp \<in> set (frame_queue v). s_state sp \<noteq> c \<and> s_marker sp \<noteq> m"
      and "cursor_store v c = (a_lat, a_lng)"
  shows "fst (animateBus ident (b_lat, b_lng) v) = Normal
         \<and> (k \<le> 39 \<longrightarrow>
           cursor_store ((run_frame ^^ k) (snd (animateBus ident (b_lat, b_lng) v))) c
           = (a_lat + real (k + 1) * ((b_lat - a_lat) / 40),
              a_lng + real (k + 1) * ((b_lng - a_lng) / 40)))
         \<and> (39 \<le> n \<longrightarrow>
           cursor_store ((run_frame ^^ n) (snd (animateBus ident (b_lat, b_lng) v))) c = (b_lat, b_lng)
           \<and> bm_latlng (marker_store ((run_frame ^^ n) (snd (animateBus ident (b_lat, b_lng) v))) m)
               = (b_lat, b_lng))"
proof -
  note cur = animateBus_frames_cursor [OF assms(1) assms(2) assms(3), of _ "(b_lat, b_lng)"]
  have "min k 39 = k" if "k \<le> 39" using that by simp
  then have early: "k \<le> 39 \<longrightarrow>
           cursor_store ((run_frame ^^ k) (snd (animateBus ident (b_lat, b_lng) v))) c
           = (a_lat + real (k + 1) * ((b_lat - a_lat) / 40),
              a_lng + real (k + 1) * ((b_lng - a_lng) / 40))"
    by (simp add: cur(1) assms(4))
  have "min n 39 = 39" if "39 \<le> n" using that by simp
  then have late: "39 \<le> n \<longrightarrow>
           cursor_store ((run_frame ^^ n) (snd (animateBus ident (b_lat, b_lng) v))) c = (b_lat, b_lng)"
    by (simp add: cur(1) assms(4) field_simps)
  show ?thesis using early late by (simp add: cur(2) animateBus_known(6) [OF assms(1) assms(2)])
qed

theorem animateBus_reaches_target_witness:
  "map_of (busMarkers one_bus_view) ''B1'' = Some 0
   \<and> map_of (animationState one_bus_view) ''B1'' = Some 0
   \<and> frame_queue one_bus_view = []
   \<and> cursor_store one_bus_view 0 = (0, 0)
   \<and> fst (animateBus ''B1'' (18, -4) one_bus_view) = Normal
   \<and> cursor_store ((run_frame ^^ 9) (snd (animateBus ''B1'' (18, -4) one_bus_view))) 0 = (9 / 2, -1)
   \<and> cursor_store ((run_frame ^^ 39) (snd (animateBus ''B1'' (18, -4) one_bus_view))) 0 = (18, -4)
   \<and> bm_latlng (marker_store ((run_frame ^^ 39) (snd (animateBus ''B1'' (18, -4) one_bus_view))) 0)
       = (18, -4)"
  using animateBus_reaches_target [where v = one_bus_view and ident = "''B1''" and m = 0 and c = 0
          and a_lat = 0 and a_lng = 0 and k = 9 and b_lat = 18 and b_lng = "-4" and n = 39]
  by (simp add: one_bus_view_facts)

lemma retargeted_facts:
  "busMarkers (run_events retargeted_events one_bus_view) = [(''B1'', 0)]"
  "animationState (run_events retargeted_events one_bus_view) = [(''B1'', 0)]"
  "cursor_store (run_events retargeted_events one_bus_view) 0 = (1 + 39 / 40, 0)"
  "bm_latlng (marker_store (run_events retargeted_events one_bus_view) 0) = (1 + 39 / 40, 0)"
  "frame_queue (run_events retargeted_events one_bus_view)
   = [\<lparr>s_i = 1, s_dLat = 1, s_dLng = 0, s_state = 0, s_marker = 0\<rparr>,
      \<lparr>s_i = 1, s_dLat = 39 / 40, s_dLng = 0, s_state = 0, s_marker = 0\<rparr>]"
  by (simp_all add: one_bus_view_def retargeted_events_def poll_eval animateBus_def step_def steps_def)

text \<open>
  C4 does not hold of the code. \<open>animateBus\<close> computes its increment as (target - cursor) / 40
  so as to land on the target, but it never cancels the closure of an earlier call, and the
  two closures add to the same cursor. A bus shown at (0, 0) is reported at (40, 0) by one
  poll and at (40, 0) again by the next, before the display is refreshed: two steppers are
  then pending on its cursor, both advance it at every refresh, and after 40 refreshes,
  when nothing is pending any more, cursor and marker rest at (79, 0). In exact arithmetic
  the bus is 39 degrees of latitude beyond the only target it was ever given.
\<close>

theorem rereported_bus_rests_off_target:
  "frame_queue (run_events retargeted_events one_bus_view)
     = [\<lparr>s_i = 1, s_dLat = 1, s_dLng = 0, s_state = 0, s_marker = 0\<rparr>,
        \<lparr>s_i = 1, s_dLat = 39 / 40, s_dLng = 0, s_state = 0, s_marker = 0\<rparr>]
   \<and> map_of (busMarkers (run_events (retargeted_events @ replicate 40 Frame) one_bus_view)) ''B1''
     = Some 0
   \<and> map_of (animationState (run_events (retargeted_events @ replicate 40 Frame) one_bus_view)) ''B1''
     = Some 0
   \<and> frame_queue (run_events (retargeted_events @ replicate 40 Frame) one_bus_view) = []
   \<and> cursor_store (run_events (retargeted_events @ replicate 40 Frame) one_bus_view) 0 = (79, 0)
   \<and> bm_latlng (marker_store (run_events (retargeted_events @ replicate 40 Frame) one_bus_view) 0)
     = (79, 0)"
proof -
  let ?v = "run_events retargeted_events one_bus_view"
  have la: "fst (cursor_store ((run_frame ^^ 40) ?v) 0) = 79"
    unfolding frames_lat retargeted_facts by (simp add: advance_def steps_def)
  have lg: "snd (cursor_store ((run_frame ^^ 40) ?v) 0) = 0"
    unfolding frames_lng retargeted_facts by (simp add: advance_def steps_def)
  have cur: "cursor_store ((run_frame ^^ 40) ?v) 0 = (79, 0)"
    using la lg by (simp add: prod_eq_iff)
  have "bm_latlng (marker_store ((run_frame ^^ 40) ?v) 0) = cursor_store ((run_frame ^^ 40) ?v) 0"
    using frames_marker_follows [of ?v 0 0 40] by (simp add: retargeted_facts)
  then have mk: "bm_latlng (marker_store ((run_frame ^^ 40) ?v) 0) = (79, 0)"
    by (simp add: cur)
  have "\<forall>sp \<in> set (frame_queue ?v). s_i sp \<le> steps"
    by (simp add: retargeted_facts steps_def)
  then have qu: "frame_queue ((run_frame ^^ 40) ?v) = []"
    by (simp add: frames_queue retargeted_facts steps_def)
  show ?thesis
    by (simp add: run_events_append run_events_frames frames_dicts retargeted_facts cur mk qu)
qed

lemma animateBus_dicts:
  "busMarkers (snd (animateBus ident target v)) = busMarkers v
   \<and> animationState (snd (animateBus ident target v)) = animationState v"
  by (simp add: animateBus_def step_dicts split: property.splits)

lemma map_of_None_keys: "map_of al k = None \<Longrightarrow> k \<notin> fst ` set al"
  by (simp add: map_of_eq_None_iff)

lemma map_of_Some_keys: "map_of al k = Some x \<Longrightarrow> k \<in> fst ` set al"
  by (metis map_of_eq_None_iff option.distinct(1))

lemma js_get_Own_keys: "js_get al k = Own x \<Longrightarrow> k \<in> fst ` set al"
  by (auto simp add: js_get_def dest: map_of_Some_keys split: option.splits if_splits)

lemma js_get_Absent_keys: "js_get al k = Absent \<Longrightarrow> k \<notin> fst ` set al"
  by (auto simp add: js_get_def dest: map_of_None_keys split: option.splits if_splits)

lemma js_get_clean:
  "k \<notin> set prototype_keys \<Longrightarrow>
   js_get al k = (case map_of al k of None \<Rightarrow> Absent | Some x \<Rightarrow> Own x)"
  by (simp add: js_get_def split: option.splits)

lemma animateBus_normal:
  assumes "ident \<notin> set prototype_keys"
  shows "fst (animateBus ident target v) = Normal"
  using assms
  by (simp add: animateBus_def js_get_clean split: option.splits)

lemma drawBus_dicts_unless_created:
  "js_get (busMarkers v) (bus_id b) \<noteq> Absent \<Longrightarrow>
   busMarkers (snd (drawBus b pos v)) = busMarkers v
   \<and> animationState (snd (drawBus b pos v)) = animationState v"
proof -
  assume a: "js_get (busMarkers v) (bus_id b) \<noteq> Absent"
  obtain c v' where r: "animateBus (bus_id b) pos v = (c, v')"
    by (cases "animateBus (bus_id b) pos v")
  have d: "busMarkers v' = busMarkers v \<and> animationState v' = animationState v"
    using animateBus_dicts [of "bus_id b" pos v] by (simp add: r)
  show ?thesis using a d
    by (cases c; cases "js_get (busMarkers v) (bus_id b)"; cases "js_get (busMarkers v') (bus_id b)")
       (simp_all add: drawBus_def Let_def r)
qed

lemma drawBus_created:
  "js_get (busMarkers v) (bus_id b) = Absent \<Longrightarrow>
   fst (drawBus b pos v) = Normal
   \<and> busMarkers (snd (drawBus b pos v)) = AList.update (bus_id b) (next_marker v) (busMarkers v)
   \<and> animationState (snd (drawBus b pos v))
       = AList.update (bus_id b) (next_cursor v) (animationState v)"
  by (simp add: drawBus_def Let_def)

lemma drawBus_keys_agree:
  assumes "keys_agree v"
  shows "keys_agree (snd (drawBus b pos v))"
proof (cases "js_get (busMarkers v) (bus_id b) = Absent")
  case True
  then show ?thesis using assms drawBus_created [OF True, of pos]
    by (simp add: dom_update keys_agree_def)
next
  case False
  then show ?thesis using assms drawBus_dicts_unless_created [OF False, of pos]
    by (simp add: keys_agree_def)
qed

lemma drawBus_normal_keys:
  assumes "fst (drawBus b pos v) = Normal"
  shows "fst ` set (busMarkers (snd (drawBus b pos v)))
         = insert (bus_id b) (fst ` set (busMarkers v))"
proof (cases "js_get (busMarkers v) (bus_id b)")
  case Absent
  then show ?thesis using drawBus_created [OF Absent, of pos] by (simp add: dom_update)
next
  case (Own m)
  then have "bus_id b \<in> fst ` set (busMarkers v)" by (rule js_get_Own_keys)
  then have "insert (bus_id b) (fst ` set (busMarkers v)) = fst ` set (busMarkers v)"
    by (rule insert_absorb)
  moreover have "js_get (busMarkers v) (bus_id b) \<noteq> Absent" using Own by simp
  ultimately show ?thesis using drawBus_dicts_unless_created [of v b pos] by simp
next
  case Inherited
  obtain c v' where r: "animateBus (bus_id b) pos v = (c, v')"
    by (cases "animateBus (bus_id b) pos v")
  have "busMarkers v' = busMarkers v"
    using animateBus_dicts [of "bus_id b" pos v] by (simp add: r)
  then have "fst (drawBus b pos v) = Threw"
    using Inherited by (cases c) (simp_all add: drawBus_def Let_def r)
  then show ?thesis using assms by simp
qed

lemma drawBus_normal:
  assumes "bus_id b \<notin> set prototype_keys"
  shows "fst (drawBus b pos v) = Normal"
proof (cases "map_of (busMarkers v) (bus_id b)")
  case None
  then have "js_get (busMarkers v) (bus_id b) = Absent"
    using assms by (simp add: js_get_clean)
  then show ?thesis by (simp add: drawBus_created)
next
  case (Some m)
  obtain c v' where r: "animateBus (bus_id b) pos v = (c, v')"
    by (cases "animateBus (bus_id b) pos v")
  have c: "c = Normal" using animateBus_normal [OF assms, of pos v] by (simp add: r)
  have "busMarkers v' = busMarkers v"
    using animateBus_dicts [of "bus_id b" pos v] by (simp add: r)
  then have "js_get (busMarkers v') (bus_id b) = Own m"
    using Some assms by (simp add: js_get_clean)
  moreover have "js_get (busMarkers v) (bus_id b) = Own m"
    using Some assms by (simp add: js_get_clean)
  ultimately show ?thesis by (simp add: drawBus_def Let_def r c)
qed

lemma drawMovementTrail_dicts:
  "busMarkers (drawMovementTrail b pos v) = busMarkers v
   \<and> animationState (drawMovementTrail b pos v) = animationState v"
  by (simp add: drawMovementTrail_def split: option.splits)

lemma station_put_dicts:
  "busMarkers (station_put k c v) = busMarkers v
   \<and> animationState (station_put k c v) = animationState v"
  by (simp add: station_put_def)

lemma drawStation_dicts:
  "busMarkers (drawStation s v) = busMarkers v \<and> animationState (drawStation s v) = animationState v"
  by (simp add: drawStation_def Let_def station_put_dicts split: property.splits)

lemma drawOptimizedEmergencyRoute_dicts:
  "busMarkers (drawOptimizedEmergencyRoute b pos v) = busMarkers v
   \<and> animationState (drawOptimizedEmergencyRoute b pos v) = animationState v"
  by (simp add: drawOptimizedEmergencyRoute_def drawArrow_def trafficColor_def Let_def
        station_put_dicts split: option.splits)

text \<open>One bus of the batch: what it leaves of the two dictionaries.\<close>

lemma visit_bus_unlocated:
  "\<not> located b \<Longrightarrow> visit_bus b (A, v) = (Normal, A, v)"
  by (auto simp add: visit_bus_def located_def split: option.splits)

lemma visit_bus_located:
  assumes "lat b = Some la" "lng b = Some lg"
  shows "fst (visit_bus b (A, v)) = fst (drawBus b (la, lg) v)"
    and "fst (snd (visit_bus b (A, v))) = insert (bus_id b) A"
    and "busMarkers (snd (snd (visit_bus b (A, v)))) = busMarkers (snd (drawBus b (la, lg) v))"
    and "animationState (snd (snd (visit_bus b (A, v))))
         = animationState (snd (drawBus b (la, lg) v))"
proof -
  obtain c v' where r: "drawBus b (la, lg) v = (c, v')" by (cases "drawBus b (la, lg) v")
  show "fst (visit_bus b (A, v)) = fst (drawBus b (la, lg) v)"
    by (cases c) (simp_all add: visit_bus_def assms r Let_def)
  show "fst (snd (visit_bus b (A, v))) = insert (bus_id b) A"
    by (cases c) (simp_all add: visit_bus_def assms r Let_def)
  show "busMarkers (snd (snd (visit_bus b (A, v)))) = busMarkers (snd (drawBus b (la, lg) v))"
    by (cases c)
       (simp_all add: visit_bus_def assms r Let_def drawMovementTrail_dicts
          drawOptimizedEmergencyRoute_dicts drawStation_dicts split: option.splits)
  show "animationState (snd (snd (visit_bus b (A, v))))
         = animationState (snd (drawBus b (la, lg) v))"
    by (cases c)
       (simp_all add: visit_bus_def assms r Let_def drawMovementTrail_dicts
          drawOptimizedEmergencyRoute_dicts drawStation_dicts split: option.splits)
qed

lemma visit_bus_keys_agree:
  assumes "keys_agree v"
  shows "keys_agree (snd (snd (visit_bus b (A, v))))"
proof (cases "located b")
  case False
  then show ?thesis using assms by (simp add: visit_bus_unlocated)
next
  case True
  then obtain la lg where ll: "lat b = Some la" "lng b = Some lg"
    by (auto simp add: located_def)
  show ?thesis
    using drawBus_keys_agree [OF assms, of b "(la, lg)"] visit_bus_located(3,4) [OF ll, of A v]
    by (simp add: keys_agree_def)
qed

lemma visit_bus_normal:
  assumes "located b" and "bus_id b \<notin> set prototype_keys"
  shows "fst (visit_bus b (A, v)) = Normal"
    and "fst (snd (visit_bus b (A, v))) = insert (bus_id b) A"
    and "fst ` set (busMarkers (snd (snd (visit_bus b (A, v)))))
         = insert (bus_id b) (fst ` set (busMarkers v))"
proof -
  obtain la lg where ll: "lat b = Some la" "lng b = Some lg"
    using assms(1) by (auto simp add: located_def)
  have n: "fst (drawBus b (la, lg) v) = Normal" using assms(2) by (rule drawBus_normal)
  show "fst (visit_bus b (A, v)) = Normal" using n by (simp add: visit_bus_located(1) [OF ll])
  show "fst (snd (visit_bus b (A, v))) = insert (bus_id b) A"
    by (rule visit_bus_located(2) [OF ll])
  show "fst ` set (busMarkers (snd (snd (visit_bus b (A, v)))))
         = insert (bus_id b) (fst ` set (busMarkers v))"
    using drawBus_normal_keys [OF n] by (simp add: visit_bus_located(3) [OF ll])
qed

lemma visit_buses_keys_agree:
  "keys_agree v \<Longrightarrow> keys_agree (snd (snd (visit_buses bs (A, v))))"
proof (induction bs arbitrary: A v)
  case Nil
  then show ?case by simp
next
  case (Cons b bs)
  obtain c A' v' where r: "visit_bus b (A, v) = (c, A', v')"
    by (cases "visit_bus b (A, v)") auto
  have k: "keys_agree v'" using visit_bus_keys_agree [OF Cons.prems, of b A] by (simp add: r)
  show ?case using k Cons.IH [OF k, of A'] by (cases c) (simp_all add: r)
qed

lemma visit_buses_normal:
  assumes "\<forall>b \<in> set bs. located b \<longrightarrow> bus_id b \<notin> set prototype_keys"
  shows "fst (visit_buses bs (A, v)) = Normal
         \<and> fst (snd (visit_buses bs (A, v))) = A \<union> bus_id ` {b \<in> set bs. located b}
         \<and> fst ` set (busMarkers (snd (snd (visit_buses bs (A, v)))))
             = fst ` set (busMarkers v) \<union> bus_id ` {b \<in> set bs. located b}"
  using assms
proof (induction bs arbitrary: A v)
  case Nil
  show ?case by simp
next
  case (Cons b bs)
  obtain c A' v' where r: "visit_bus b (A, v) = (c, A', v')"
    by (cases "visit_bus b (A, v)") auto
  have rest: "\<forall>b \<in> set bs. located b \<longrightarrow> bus_id b \<notin> set prototype_keys"
    using Cons.prems by simp
  note ih = Cons.IH [OF rest, of A' v']
  show ?case
  proof (cases "located b")
    case False
    then have "c = Normal" "A' = A" "v' = v" using r by (simp_all add: visit_bus_unlocated)
    then show ?thesis using ih r False by auto
  next
    case True
    then have clean: "bus_id b \<notin> set prototype_keys" using Cons.prems by simp
    have "c = Normal" "A' = insert (bus_id b) A"
         "fst ` set (busMarkers v') = insert (bus_id b) (fst ` set (busMarkers v))"
      using visit_bus_normal [OF True clean, of A v] by (simp_all add: r)
    then show ?thesis using ih r True by auto
  qed
qed

lemma remove_inactive_keys:
  "fst ` set (busMarkers (remove_inactive A k v)) = fst ` set (busMarkers v) - ({k} - A)
   \<and> fst ` set (animationState (remove_inactive A k v)) = fst ` set (animationState v) - ({k} - A)"
proof -
  have "fst ` set (AList.delete k al) = fst ` set al - {k}" for al :: "(string \<times> nat) list"
    using delete_keys [of k al] by (metis list.set_map set_removeAll)
  moreover have "k \<notin> A \<Longrightarrow> {k} - A = {k}" and "k \<in> A \<Longrightarrow> {k} - A = {}"
    by auto
  ultimately show ?thesis by (cases "k \<in> A") (simp_all add: remove_inactive_def)
qed

lemma fold_remove_inactive_keys:
  "fst ` set (busMarkers (fold (remove_inactive A) ks v)) = fst ` set (busMarkers v) - (set ks - A)
   \<and> fst ` set (animationState (fold (remove_inactive A) ks v))
       = fst ` set (animationState v) - (set ks - A)"
proof (induction ks arbitrary: v)
  case Nil
  show ?case by simp
next
  case (Cons k ks)
  show ?case using Cons.IH [of "remove_inactive A k v"] remove_inactive_keys [of A k v]
    by auto
qed

lemma updateMap_keys_agree:
  assumes "keys_agree v"
  shows "keys_agree (snd (updateMap bs v))"
proof -
  let ?v0 = "v\<lparr>movementLayer := [], emergencyRouteLayer := [], arrowLayer := [], stationLayer := []\<rparr>"
  obtain c A v1 where f: "visit_buses bs ({}, ?v0) = (c, A, v1)"
    by (cases "visit_buses bs ({}, ?v0)") auto
  have k0: "keys_agree ?v0" using assms by (simp add: keys_agree_def)
  have k1: "keys_agree v1" using visit_buses_keys_agree [OF k0, of bs "{}"] by (simp add: f)
  show ?thesis
  proof (cases c)
    case Threw
    then show ?thesis using k1 by (simp add: updateMap_def f)
  next
    case Normal
    then have u: "snd (updateMap bs v) = fold (remove_inactive A) (map fst (busMarkers v1)) v1"
      by (simp add: updateMap_def f)
    show ?thesis
      unfolding u using fold_remove_inactive_keys [of A "map fst (busMarkers v1)" v1] k1
      by (simp add: keys_agree_def)
  qed
qed

lemma updateMap_keys:
  assumes "keys_agree v"
      and "\<forall>b \<in> set bs. located b \<longrightarrow> bus_id b \<notin> set prototype_keys"
  shows "fst (updateMap bs v) = Normal"
    and "fst ` set (busMarkers (snd (updateMap bs v))) = bus_id ` {b \<in> set bs. located b}"
    and "fst ` set (animationState (snd (updateMap bs v))) = bus_id ` {b \<in> set bs. located b}"
proof -
  let ?v0 = "v\<lparr>movementLayer := [], emergencyRouteLayer := [], arrowLayer := [], stationLayer := []\<rparr>"
  obtain c A v1 where f: "visit_buses bs ({}, ?v0) = (c, A, v1)"
    by (cases "visit_buses bs ({}, ?v0)") auto
  have k0: "keys_agree ?v0" using assms(1) by (simp add: keys_agree_def)
  note r = visit_buses_normal [OF assms(2), of "{}" ?v0, unfolded f, simplified]
  have c: "c = Normal" using r by simp
  have A: "A = bus_id ` {b \<in> set bs. located b}" using r by simp
  have kb: "fst ` set (busMarkers v1) = fst ` set (busMarkers v) \<union> A" using r A by simp
  have "keys_agree v1" using visit_buses_keys_agree [OF k0, of bs "{}"] by (simp add: f)
  then have ka: "fst ` set (animationState v1) = fst ` set (busMarkers v1)"
    by (simp add: keys_agree_def)
  have u: "updateMap bs v = (Normal, fold (remove_inactive A) (map fst (busMarkers v1)) v1)"
    by (simp add: updateMap_def f c)
  note rm = fold_remove_inactive_keys [of A "map fst (busMarkers v1)" v1]
  show "fst (updateMap bs v) = Normal" by (simp add: u)
  show "fst ` set (busMarkers (snd (updateMap bs v))) = bus_id ` {b \<in> set bs. located b}"
    unfolding u using rm kb A by auto
  show "fst ` set (animationState (snd (updateMap bs v))) = bus_id ` {b \<in> set bs. located b}"
    unfolding u using rm kb ka A by auto
qed

lemma renderTable_fields:
  "busMarkers (snd (renderTable bs v)) = busMarkers v
   \<and> animationState (snd (renderTable bs v)) = animationState v
   \<and> platform (snd (renderTable bs v)) = platform v
   \<and> fst (renderTable bs v) = (None \<in> set (map soc bs))"
  by (simp add: renderTable_def)

lemma try_success:
  assumes "keys_agree v" and "rd_success d" and "rd_buses d = Some bs"
      and "None \<notin> set (map soc (filter (search_matches (platform v) (search_query v)) bs))"
      and "\<forall>b \<in> set (filter (search_matches (platform v) (search_query v)) bs).
             located b \<longrightarrow> bus_id b \<notin> set prototype_keys"
  shows "fst ` set (busMarkers (fetchRouteStatus_try (Response ok (Some d)) v))
           = bus_id ` set (filter located (filter (search_matches (platform v) (search_query v)) bs))"
    and "fst ` set (animationState (fetchRouteStatus_try (Response ok (Some d)) v))
           = bus_id ` set (filter located (filter (search_matches (platform v) (search_query v)) bs))"
    and "routeState_display (fetchRouteStatus_try (Response ok (Some d)) v) = ''none''"
proof -
  let ?f = "filter (search_matches (platform v) (search_query v)) bs"
  obtain threw v1 where r: "renderTable ?f v = (threw, v1)" by (cases "renderTable ?f v")
  have nt: "\<not> threw" using renderTable_fields [of ?f v] assms(4) by (simp add: r)
  have k1: "keys_agree v1"
    using renderTable_fields [of ?f v] assms(1) by (simp add: r keys_agree_def)
  obtain v2 where u: "updateMap ?f v1 = (Normal, v2)"
    using updateMap_keys(1) [OF k1 assms(5)] by (cases "updateMap ?f v1") auto
  have t: "fetchRouteStatus_try (Response ok (Some d)) v = v2\<lparr>routeState_display := ''none''\<rparr>"
    using assms(2,3) nt by (simp add: fetchRouteStatus_try_def Let_def r u)
  have s: "{b \<in> set ?f. located b} = set (filter located ?f)" by auto
  show "fst ` set (busMarkers (fetchRouteStatus_try (Response ok (Some d)) v))
           = bus_id ` set (filter located ?f)"
    unfolding t using updateMap_keys(2) [OF k1 assms(5)] by (simp only: s u) simp
  show "fst ` set (animationState (fetchRouteStatus_try (Response ok (Some d)) v))
           = bus_id ` set (filter located ?f)"
    unfolding t using updateMap_keys(3) [OF k1 assms(5)] by (simp only: s u) simp
  show "routeState_display (fetchRouteStatus_try (Response ok (Some d)) v) = ''none''"
    unfolding t by simp
qed

lemma try_keys_agree:
  assumes "keys_agree v"
  shows "keys_agree (fetchRouteStatus_try outcome v)"
proof -
  have tu: "keys_agree w \<Longrightarrow> keys_agree (telemetry_unavailable w)" for w
    by (simp add: telemetry_unavailable_def keys_agree_def)
  have rt: "keys_agree (snd (renderTable bs v))" for bs
    using assms by (simp add: renderTable_def keys_agree_def)
  have um: "keys_agree (snd (updateMap bs (snd (renderTable bs v))))" for bs
    by (rule updateMap_keys_agree [OF rt])
  have um': "keys_agree ((snd (updateMap bs (snd (renderTable bs v))))\<lparr>routeState_display := x\<rparr>)"
    for bs x
    using um [of bs] by (simp add: keys_agree_def)
  show ?thesis
    using assms tu rt um um'
    by (auto simp add: fetchRouteStatus_try_def Let_def case_prod_beta
          split: fetched.splits option.splits prod.splits completion.splits)
qed

lemma route_step_keys_agree: "keys_agree v \<Longrightarrow> keys_agree (route_step v e)"
proof (cases e)
  case Tick
  assume "keys_agree v"
  then show ?thesis using Tick
    by (simp add: tick_def Let_def fetchRouteStatus_def keys_agree_def)
next
  case (Search_input t)
  assume "keys_agree v"
  then show ?thesis using Search_input by (simp add: fetchRouteStatus_def keys_agree_def)
next
  case (Settled outcome)
  assume "keys_agree v"
  then show ?thesis using Settled try_keys_agree [of v outcome]
    by (simp add: fetchRouteStatus_settle_def keys_agree_def)
next
  case Frame
  assume "keys_agree v"
  then show ?thesis using Frame by (simp add: keys_agree_def run_frame_dicts)
qed

lemma run_events_keys_agree: "keys_agree v \<Longrightarrow> keys_agree (run_events es v)"
  unfolding run_events_def
  by (induction es arbitrary: v) (simp_all add: route_step_keys_agree)

lemma page_load_keys_agree: "keys_agree (page_load sel q pf)"
  by (simp add: page_load_def route_init_def fetchRouteStatus_def keys_agree_def)

text \<open>
  C1, amended. In every state the live view can reach, a poll that completes its
  \<open>try\<close> block leaves \<open>busMarkers\<close> and \<open>animationState\<close> with exactly the identifiers
  of the buses of the response that pass the search filter and have both \<open>lat\<close> and
  \<open>lng\<close>: each of them has a marker, and every other identifier known before has lost
  its marker and its interpolation state. The poll completes its \<open>try\<close> block when the
  success flag is set, the bus list is present, every bus that passes the filter has a
  \<open>soc\<close>, and no bus that is drawn has an identifier that a plain object inherits (for
  such a bus \<open>drawBus\<close> throws). The page is one where no bus named \<open>__proto__\<close> has made
  \<open>animateBus\<close> write into \<open>Object.prototype\<close> before.
\<close>

theorem markers_match_drawn_buses:
  assumes "v = run_events es (page_load sel q pf)"
      and "\<not> prototype_polluted v"
      and "rd_success d" and "rd_buses d = Some bs"
      and "None \<notin> set (map soc (filter (search_matches (platform v) (search_query v)) bs))"
      and "set (map bus_id (filter located
              (filter (search_matches (platform v) (search_query v)) bs)))
           \<inter> set prototype_keys = {}"
  shows "fst ` set (busMarkers (fetchRouteStatus_settle (Response ok (Some d)) v))
           = bus_id ` set (filter located
               (filter (search_matches (platform v) (search_query v)) bs))
         \<and> fst ` set (animationState (fetchRouteStatus_settle (Response ok (Some d)) v))
           = bus_id ` set (filter located
               (filter (search_matches (platform v) (search_query v)) bs))
         \<and> routeState_display (fetchRouteStatus_settle (Response ok (Some d)) v) = ''none''"
proof -
  have k: "keys_agree v"
    unfolding assms(1) by (rule run_events_keys_agree [OF page_load_keys_agree])
  have clean: "\<forall>b \<in> set (filter (search_matches (platform v) (search_query v)) bs).
                 located b \<longrightarrow> bus_id b \<notin> set prototype_keys"
    using assms(6) by auto
  from try_success [OF k assms(3,4,5) clean, of ok]
  show ?thesis by (simp add: fetchRouteStatus_settle_def)
qed

lemma one_bus_view_search:
  "search_query one_bus_view = []"
  "platform one_bus_view = ascii_platform"
  "prototype_polluted one_bus_view = False"
  by (simp_all add: one_bus_view_def poll_eval)

lemma two_bus_batch_drawn:
  "filter (search_matches ascii_platform []) two_bus_batch = two_bus_batch"
  "None \<notin> soc ` set two_bus_batch"
  "bus_id ` {b \<in> set two_bus_batch. located b} = {''B1''}"
proof -
  show "filter (search_matches ascii_platform []) two_bus_batch = two_bus_batch"
    by (simp add: two_bus_batch_def example_bus_def search_matches_def ascii_platform_def
          ascii_lower_def)
  show "None \<notin> soc ` set two_bus_batch"
    by (simp add: two_bus_batch_def example_bus_def)
  have "filter located two_bus_batch = [example_bus ''B1'' (Some 3) (Some 4) ''GOOD'' None]"
    by (simp add: two_bus_batch_def example_bus_def located_def)
  then have "bus_id ` set (filter located two_bus_batch) = {''B1''}"
    by (simp add: example_bus_def)
  then show "bus_id ` {b \<in> set two_bus_batch. located b} = {''B1''}"
    by simp
qed

theorem markers_match_drawn_buses_witness:
  "\<not> prototype_polluted one_bus_view
   \<and> None \<notin> set (map soc (filter (search_matches (platform one_bus_view)
        (search_query one_bus_view)) two_bus_batch))
   \<and> set (map bus_id (filter located (filter (search_matches (platform one_bus_view)
        (search_query one_bus_view)) two_bus_batch))) \<inter> set prototype_keys = {}
   \<and> fst ` set (busMarkers (fetchRouteStatus_settle
        (Response True (Some \<lparr>rd_success = True, rd_buses = Some two_bus_batch\<rparr>)) one_bus_view))
      = {''B1''}
   \<and> fst ` set (animationState (fetchRouteStatus_settle
        (Response True (Some \<lparr>rd_success = True, rd_buses = Some two_bus_batch\<rparr>)) one_bus_view))
      = {''B1''}"
  using markers_match_drawn_buses
          [OF one_bus_view_def, of "\<lparr>rd_success = True, rd_buses = Some two_bus_batch\<rparr>"
              two_bus_batch True]
  by (simp add: one_bus_view_search two_bus_batch_drawn prototype_keys_def)

lemma unlocated_view_facts:
  "routeState_display unlocated_view = ''none''"
  "busMarkers unlocated_view = []"
  by (simp_all add: unlocated_view_def poll_eval)

lemma filtered_view_facts:
  "routeState_display filtered_view = ''none''"
  "busMarkers filtered_view = []"
  by (simp_all add: filtered_view_def poll_eval)

text \<open>
  C1, as stated, fails: both polls complete their \<open>try\<close> block (the indicator is hidden),
  yet the bus of the response batch has no marker.
\<close>

theorem markers_equal_batch_counterexample:
  "routeState_display unlocated_view = ''none''
   \<and> fst ` set (busMarkers unlocated_view)
       \<noteq> bus_id ` set [example_bus ''B2'' None (Some 4) ''GOOD'' None]
   \<and> routeState_display filtered_view = ''none''
   \<and> fst ` set (busMarkers filtered_view)
       \<noteq> bus_id ` set [example_bus ''B1'' (Some 3) (Some 4) ''GOOD'' None]"
  by (simp add: unlocated_view_facts filtered_view_facts)

text \<open>
  A bus whose identifier a plain object inherits is never drawn: on a fresh page
  \<open>busMarkers["constructor"]\<close> already reads as present, \<open>drawBus\<close> takes its update
  branch, \<open>animateBus\<close> throws, and the poll ends in its \<open>catch\<close> block.
\<close>

lemma inherited_id_poll_fails:
  "routeState_display
     (run_events [Settled (batch [example_bus ''constructor'' (Some 3) (Some 4) ''GOOD'' None])]
        (page_load [] None ascii_platform)) = ''block''
   \<and> busMarkers
     (run_events [Settled (batch [example_bus ''constructor'' (Some 3) (Some 4) ''GOOD'' None])]
        (page_load [] None ascii_platform)) = []"
  by (simp add: poll_eval animateBus_def)

lemma animateBus_stations:
  "circles_created (snd (animateBus ident target v)) = circles_created v
   \<and> stationLayer (snd (animateBus ident target v)) = stationLayer v"
  by (simp add: animateBus_def step_def Let_def split: property.splits)

lemma drawBus_stations:
  "circles_created (snd (drawBus b pos v)) = circles_created v
   \<and> stationLayer (snd (drawBus b pos v)) = stationLayer v"
proof -
  obtain c v' where r: "animateBus (bus_id b) pos v = (c, v')"
    by (cases "animateBus (bus_id b) pos v")
  have d: "circles_created v' = circles_created v \<and> stationLayer v' = stationLayer v"
    using animateBus_stations [of "bus_id b" pos v] by (simp add: r)
  show ?thesis using d
    by (cases c; cases "js_get (busMarkers v) (bus_id b)"; cases "js_get (busMarkers v') (bus_id b)")
       (simp_all add: drawBus_def Let_def r)
qed

lemma drawMovementTrail_stations:
  "circles_created (drawMovementTrail b pos v) = circles_created v
   \<and> stationLayer (drawMovementTrail b pos v) = stationLayer v"
  by (simp add: drawMovementTrail_def split: option.splits)

lemma drawOptimizedEmergencyRoute_stations:
  "charging_station b = Some s \<Longrightarrow>
   circles_created (drawOptimizedEmergencyRoute b pos v) = circles_created v @ [st_name s]
   \<and> map c_name (stationLayer (drawOptimizedEmergencyRoute b pos v))
       = map c_name (stationLayer v) @ [st_name s]"
  by (simp add: drawOptimizedEmergencyRoute_def drawArrow_def trafficColor_def Let_def
        station_put_def)

lemma visit_critical_bus:
  assumes "lat b = Some la" "lng b = Some lg" "bus_status b = ''CRITICAL''"
      and "charging_station b = Some s" and "bus_id b \<notin> set prototype_keys"
  shows "fst (visit_bus b (A, v)) = Normal
         \<and> circles_created (snd (snd (visit_bus b (A, v)))) = circles_created v @ [st_name s]
         \<and> map c_name (stationLayer (snd (snd (visit_bus b (A, v)))))
             = map c_name (stationLayer v) @ [st_name s]"
proof -
  obtain v' where d: "drawBus b (la, lg) v = (Normal, v')"
    using drawBus_normal [OF assms(5), of "(la, lg)" v] by (cases "drawBus b (la, lg) v") auto
  have st: "circles_created v' = circles_created v \<and> stationLayer v' = stationLayer v"
    using drawBus_stations [of b "(la, lg)" v] by (simp add: d)
  let ?v1 = "drawMovementTrail b (la, lg) v'"
  have "visit_bus b (A, v)
        = (Normal, insert (bus_id b) A, drawOptimizedEmergencyRoute b (la, lg) ?v1)"
    using assms(1,2,3,4) by (simp add: visit_bus_def Let_def d)
  then show ?thesis
    using drawOptimizedEmergencyRoute_stations [OF assms(4), of "(la, lg)" ?v1] st
    by (simp add: drawMovementTrail_stations)
qed

lemma fold_remove_inactive_stations:
  "circles_created (fold (remove_inactive A) ks v) = circles_created v
   \<and> stationLayer (fold (remove_inactive A) ks v) = stationLayer v"
  by (induction ks arbitrary: v) (simp_all add: remove_inactive_def)

lemma updateMap_critical_pair:
  "fst (updateMap critical_pair v) = Normal
   \<and> circles_created (snd (updateMap critical_pair v)) = circles_created v @ [''Depot'', ''Depot'']
   \<and> map c_name (stationLayer (snd (updateMap critical_pair v))) = [''Depot'', ''Depot'']"
proof -
  let ?v0 = "v\<lparr>movementLayer := [], emergencyRouteLayer := [], arrowLayer := [], stationLayer := []\<rparr>"
  let ?b1 = "example_bus ''B1'' (Some 3) (Some 4) ''CRITICAL'' (Some depot)"
  let ?b2 = "example_bus ''B2'' (Some 7) (Some 8) ''CRITICAL'' (Some depot)"
  obtain c1 A1 v1 where s1: "visit_bus ?b1 ({}, ?v0) = (c1, A1, v1)"
    by (cases "visit_bus ?b1 ({}, ?v0)") auto
  obtain c2 A2 v2 where s2: "visit_bus ?b2 (A1, v1) = (c2, A2, v2)"
    by (cases "visit_bus ?b2 (A1, v1)") auto
  have n: "st_name depot = ''Depot''" by (simp add: depot_def)
  have f1: "c1 = Normal \<and> circles_created v1 = circles_created v @ [''Depot'']
            \<and> map c_name (stationLayer v1) = [''Depot'']"
  proof -
    have h: "lat ?b1 = Some 3" "lng ?b1 = Some 4" "bus_status ?b1 = ''CRITICAL''"
            "charging_station ?b1 = Some depot" "bus_id ?b1 \<notin> set prototype_keys"
      by (simp_all add: example_bus_def prototype_keys_def)
    show ?thesis using visit_critical_bus [OF h, of "{}" ?v0] unfolding s1 by (simp add: n)
  qed
  have f2: "c2 = Normal \<and> circles_created v2 = circles_created v1 @ [''Depot'']
            \<and> map c_name (stationLayer v2) = map c_name (stationLayer v1) @ [''Depot'']"
  proof -
    have h: "lat ?b2 = Some 7" "lng ?b2 = Some 8" "bus_status ?b2 = ''CRITICAL''"
            "charging_station ?b2 = Some depot" "bus_id ?b2 \<notin> set prototype_keys"
      by (simp_all add: example_bus_def prototype_keys_def)
    show ?thesis using visit_critical_bus [OF h, of A1 v1] unfolding s2 by (simp add: n)
  qed
  have "updateMap critical_pair v
        = (Normal, fold (remove_inactive A2) (map fst (busMarkers v2)) v2)"
    using f1 f2 by (simp add: updateMap_def critical_pair_def s1 s2)
  then show ?thesis using f1 f2 by (simp add: fold_remove_inactive_stations)
qed

lemma includes_str_empty: "includes_str t []"
  by (cases t) simp_all

lemma critical_pair_filter:
  "filter (search_matches pf []) critical_pair = critical_pair"
  "None \<notin> set (map soc critical_pair)"
  by (simp_all add: critical_pair_def example_bus_def search_matches_def includes_str_empty)

lemma settle_critical_pair:
  assumes "search_query v = []"
  shows "circles_created (fetchRouteStatus_settle (batch critical_pair) v)
           = circles_created v @ [''Depot'', ''Depot'']"
    and "map c_name (stationLayer (fetchRouteStatus_settle (batch critical_pair) v))
           = [''Depot'', ''Depot'']"
proof -
  let ?v1 = "snd (renderTable critical_pair v)"
  obtain v2 where u: "updateMap critical_pair ?v1 = (Normal, v2)"
    using updateMap_critical_pair [of ?v1] by (cases "updateMap critical_pair ?v1") auto
  have c1: "circles_created ?v1 = circles_created v" by (simp add: renderTable_def)
  have f: "circles_created v2 = circles_created v @ [''Depot'', ''Depot'']
           \<and> map c_name (stationLayer v2) = [''Depot'', ''Depot'']"
    using updateMap_critical_pair [of ?v1] unfolding u by (simp add: c1)
  have "fetchRouteStatus_try (batch critical_pair) v = v2\<lparr>routeState_display := ''none''\<rparr>"
    using critical_pair_filter(1) [of "platform v"] critical_pair_filter(2)
    by (simp add: fetchRouteStatus_try_def batch_def assms Let_def case_prod_beta
          renderTable_fields u)
  then show "circles_created (fetchRouteStatus_settle (batch critical_pair) v)
           = circles_created v @ [''Depot'', ''Depot'']"
    and "map c_name (stationLayer (fetchRouteStatus_settle (batch critical_pair) v))
           = [''Depot'', ''Depot'']"
    using f by (simp_all add: fetchRouteStatus_settle_def)
qed

text \<open>
  C6 does not hold of the code: \<open>drawStation\<close> skips a name that already has a marker,
  \<open>drawOptimizedEmergencyRoute\<close> does not. On a fresh page, one poll whose batch has two
  critical buses at the same station constructs two circle markers for that one name, and
  both are on the station layer.
\<close>

theorem station_marker_created_twice:
  "circles_created (run_events [Settled (batch critical_pair)] (page_load [] None ascii_platform))
     = [''Depot'', ''Depot'']
   \<and> map c_name (stationLayer (run_events [Settled (batch critical_pair)]
        (page_load [] None ascii_platform))) = [''Depot'', ''Depot'']"
proof -
  let ?v = "page_load [] None ascii_platform"
  have q: "search_query ?v = []" and i: "in_flight ?v = 1" and c: "circles_created ?v = []"
    by (simp_all add: page_load_def route_init_def fetchRouteStatus_def search_query_def)
  have "run_events [Settled (batch critical_pair)] ?v = fetchRouteStatus_settle (batch critical_pair) ?v"
    using i by (simp add: run_events_def)
  then show ?thesis using settle_critical_pair [OF q] c by simp
qed









lemma call_failed_cases:
  assumes "call_failed success outcome"
  obtains msg where "outcome = Rejected msg"
        | "outcome = Response False None"
        | ok d where "outcome = Response ok (Some d)" "\<not> ok \<or> \<not> success d"
  using assms
  by (cases outcome) (auto simp add: call_failed_def split: option.splits)


lemma loadMaintenance_without_counter:
  assumes "call_failed mj_success outcome" and "maintenanceCount_text m = None"
  shows "loadMaintenance lc outcome m
         = (Threw,
            m\<lparr>maintenanceState :=
                \<lparr>textContent = ''Fetching maintenance analytics'' @ [CHR 0xE2, CHR 0x80, CHR 0xA6],
                 className = ''state-box loading'', display = ''block''\<rparr>,
              maintenance_requests := maintenance_requests m + 1\<rparr>)"
  using assms(1)
  by (cases rule: call_failed_cases)
     (auto simp add: loadMaintenance_def Let_def maintenance_showState_def maintenance_catch_def
        set_maintenanceCount_def assms(2))














end
